theory Spec2Isabelle
  imports Complex_Main "HOL-Library.Char_ord" "HOL-Library.Monad_Syntax"
begin

section \<open>Cells, frames and errors\<close>

text \<open>
  The cleaning routine \<^verbatim>\<open>clean_pdf\<close> of \<^verbatim>\<open>pdftoexcel.py\<close> works on a pandas
  DataFrame. Up to step 4 every column holds what the table extraction delivered: a text, or
  the missing value \<^verbatim>\<open>NaN\<close> where a narrower table was padded by \<^verbatim>\<open>pd.concat\<close>. Such a raw
  cell is a \<open>string option\<close>, with \<open>None\<close> for \<^verbatim>\<open>NaN\<close>.

  Steps 5 and 6 change the type of seven columns. From there on a cell is a text, a missing
  value (\<open>NaN\<close>, or \<open>NaT\<close> for a date that did not parse), a number or a calendar date.

  Numbers are exact rationals: the decimal value of the text that was read. The rounding of
  a float64, its range and the values \<^verbatim>\<open>inf\<close> and \<^verbatim>\<open>-inf\<close> are outside the model. The
  wrap-around of the integer columns is in the model: see \<open>series_sum\<close>.
  Characters are the code points below 256.
\<close>

type_synonym raw = "string option"

datatype date = Date int int int

datatype cell = NaN | NaT | Str string | Num rat | Day date

text \<open>
  A frame is its number of columns and its rows, each with its index label. The labels matter
  because \<^verbatim>\<open>df.drop\<close> removes rows by label.
\<close>

record 'a dataframe =
  ncols :: nat
  body :: "(nat \<times> 'a list) list"

text \<open>The exceptions that the routine can raise, by the pandas call that raises them.\<close>

datatype error =
    No_objects_to_concatenate  \<comment> \<open>ValueError of \<^verbatim>\<open>pd.concat\<close> on an empty list\<close>
  | Length_mismatch            \<comment> \<open>ValueError of \<^verbatim>\<open>df.columns = [...]\<close>\<close>
  | Indexer_out_of_bounds      \<comment> \<open>IndexError of \<^verbatim>\<open>df.iloc[:, 0]\<close> on a frame without columns\<close>

section \<open>Strings\<close>

text \<open>
  \<^verbatim>\<open>str.isspace\<close> below 256: tab to carriage return, the four separators 28 to 31, space,
  next line (133) and the no-break space (160).
\<close>

definition is_space :: "char \<Rightarrow> bool" where
  "is_space c =
     (let n = (of_char c :: int)
      in (9 \<le> n \<and> n \<le> 13) \<or> (28 \<le> n \<and> n \<le> 32) \<or> n = 133 \<or> n = 160)"

definition strip :: "string \<Rightarrow> string" where
  "strip s = rev (dropWhile is_space (rev (dropWhile is_space s)))"

definition lower_char :: "char \<Rightarrow> char" where
  "lower_char c =
     (case map_of (zip ''ABCDEFGHIJKLMNOPQRSTUVWXYZ'' ''abcdefghijklmnopqrstuvwxyz'') c of
        None \<Rightarrow> c | Some d \<Rightarrow> d)"

definition lower :: "string \<Rightarrow> string" where
  "lower s = map lower_char s"

fun starts_with :: "string \<Rightarrow> string \<Rightarrow> bool" where
  "starts_with [] s = True"
| "starts_with (p # ps) [] = False"
| "starts_with (p # ps) (c # cs) = (p = c \<and> starts_with ps cs)"

fun is_substring :: "string \<Rightarrow> string \<Rightarrow> bool" where
  "is_substring p [] = (p = [])"
| "is_substring p (c # cs) = (starts_with p (c # cs) \<or> is_substring p cs)"

text \<open>
  \<^verbatim>\<open>Series.str.contains(pat, case=False)\<close> for a pattern without regular-expression
  operators: a case-insensitive search for the pattern anywhere in the text. The two patterns
  of the routine are ASCII, and below 256 only an ASCII letter matches an ASCII letter.
\<close>

definition str_contains :: "string \<Rightarrow> string \<Rightarrow> bool" where
  "str_contains pat s = is_substring (lower pat) (lower s)"

text \<open>\<^verbatim>\<open>astype(str)\<close> and \<^verbatim>\<open>str(...)\<close> on a raw cell: the missing value becomes the text \<^verbatim>\<open>nan\<close>.\<close>

fun astype_str :: "raw \<Rightarrow> string" where
  "astype_str None = ''nan''"
| "astype_str (Some s) = s"

section \<open>Reading the tables: lines 16 to 35\<close>

text \<open>
  \<^verbatim>\<open>t.df\<close> of an extracted table: the frame of its grid of texts, labelled from 0. A grid is
  rectangular; were a row shorter, the frame constructor would pad it.
\<close>

definition reindex_columns :: "nat \<Rightarrow> raw list \<Rightarrow> raw list" where
  "reindex_columns w r = r @ replicate (w - length r) None"

definition DataFrame :: "string list list \<Rightarrow> raw dataframe" where
  "DataFrame data =
     (let w = fold max (map length data) 0
      in \<lparr>ncols = w,
          body = zip [0..<length data] (map (\<lambda>r. reindex_columns w (map Some r)) data)\<rparr>)"

text \<open>
  \<^verbatim>\<open>pd.concat(df_list, ignore_index=True)\<close>: the rows of all frames in order, relabelled from
  0, over the union of the columns; a frame with fewer columns is padded with \<^verbatim>\<open>NaN\<close>.
\<close>

definition pd_concat :: "raw dataframe list \<Rightarrow> error + raw dataframe" where
  "pd_concat df_list =
     (if df_list = [] then Inl No_objects_to_concatenate
      else let w = fold max (map ncols df_list) 0;
               rs = concat (map (\<lambda>d. map snd (body d)) df_list)
           in Inr \<lparr>ncols = w, body = zip [0..<length rs] (map (reindex_columns w) rs)\<rparr>)"

text \<open>\<^verbatim>\<open>df.iloc[:, :10]\<close>\<close>

definition iloc_columns :: "nat \<Rightarrow> 'a dataframe \<Rightarrow> 'a dataframe" where
  "iloc_columns n df = \<lparr>ncols = min n (ncols df), body = map (\<lambda>(l, r). (l, take n r)) (body df)\<rparr>"

text \<open>
  \<^verbatim>\<open>df.columns = [...]\<close> with ten names: pandas refuses a frame of another width. From here
  on the columns are, by position: 0 No., 1 Value Date, 2 Tran Type, 3 Tran Ref, 4 Participant,
  5 Additional Information, 6 DR, 7 Amount_DR, 8 CR, 9 Amount_CR.
\<close>

definition set_columns :: "'a dataframe \<Rightarrow> error + 'a dataframe" where
  "set_columns df = (if ncols df = 10 then Inr df else Inl Length_mismatch)"

section \<open>Removing rows: steps 1 to 3\<close>

text \<open>
  \<^verbatim>\<open>df[~df.apply(f, axis=1)]\<close>. On a frame with rows, \<^verbatim>\<open>apply\<close> gives one truth value per row
  and the rows where it is false are kept. On a frame without rows, \<^verbatim>\<open>apply\<close> returns an
  empty series of floats, which \<^verbatim>\<open>~\<close> returns as it is and which \<^verbatim>\<open>df[...]\<close> then reads as an
  empty list of column labels: the result has no columns.
\<close>

definition getitem_not_apply :: "('a list \<Rightarrow> bool) \<Rightarrow> 'a dataframe \<Rightarrow> 'a dataframe" where
  "getitem_not_apply f df =
     (if body df = [] then \<lparr>ncols = 0, body = []\<rparr>
      else df\<lparr>body := filter (\<lambda>(l, r). \<not> f r) (body df)\<rparr>)"

text \<open>Line 38: \<^verbatim>\<open>row.astype(str).str.contains("table from page", case=False).any()\<close>\<close>

definition contains_table_from_page :: "raw list \<Rightarrow> bool" where
  "contains_table_from_page row = list_ex (\<lambda>c. str_contains ''table from page'' (astype_str c)) row"

definition step1 :: "raw dataframe \<Rightarrow> raw dataframe" where
  "step1 df = getitem_not_apply contains_table_from_page df"

text \<open>Line 41: \<^verbatim>\<open>df.dropna(how="all")\<close>\<close>

definition dropna_all :: "raw dataframe \<Rightarrow> raw dataframe" where
  "dropna_all df = df\<lparr>body := filter (\<lambda>(l, r). \<not> list_all (\<lambda>c. c = None) r) (body df)\<rparr>"

text \<open>Line 42: \<^verbatim>\<open>(row.astype(str).str.strip() == "").all()\<close>\<close>

definition all_blank :: "raw list \<Rightarrow> bool" where
  "all_blank row = list_all (\<lambda>c. strip (astype_str c) = '''') row"

definition step2 :: "raw dataframe \<Rightarrow> raw dataframe" where
  "step2 df = getitem_not_apply all_blank (dropna_all df)"

text \<open>
  Line 45: \<^verbatim>\<open>df[~df.iloc[:, 0].astype(str).str.contains("Additional", case=False, na=False)]\<close>.
  The mask is a series of truth values also when the frame has no rows, so the rows are
  selected; \<^verbatim>\<open>iloc[:, 0]\<close> needs a first column.
\<close>

definition contains_Additional :: "raw list \<Rightarrow> bool" where
  "contains_Additional row = str_contains ''Additional'' (astype_str (row ! 0))"

definition step3 :: "raw dataframe \<Rightarrow> error + raw dataframe" where
  "step3 df =
     (if ncols df = 0 then Inl Indexer_out_of_bounds
      else Inr (df\<lparr>body := filter (\<lambda>(l, r). \<not> contains_Additional r) (body df)\<rparr>))"

section \<open>Continuation rows: step 4\<close>

text \<open>
  Lines 51 and 52: the row has exactly one cell that is not blank, and it is the cell of
  column 5.
\<close>

definition non_empty :: "raw list \<Rightarrow> bool list" where
  "non_empty row = map (\<lambda>c. strip (astype_str c) \<noteq> '''') row"

definition is_continuation :: "raw list \<Rightarrow> bool" where
  "is_continuation row = (length (filter id (non_empty row)) = 1 \<and> non_empty row ! 5)"

text \<open>
  The body of the loop at position \<open>i\<close>. The state is the rows of the frame, which line 53
  updates in place at position \<open>i - 1\<close>, and the list \<^verbatim>\<open>rows_to_drop\<close> of labels.
\<close>

definition step4_body :: "nat \<Rightarrow> (nat \<times> raw list) list \<times> nat list \<Rightarrow> (nat \<times> raw list) list \<times> nat list" where
  "step4_body i st =
     (let (rs, rows_to_drop) = st; row = snd (rs ! i)
      in if is_continuation row
         then (rs[i - 1 := (fst (rs ! (i - 1)),
                   (snd (rs ! (i - 1)))[5 := Some (astype_str (snd (rs ! (i - 1)) ! 5) @ '' '' @ astype_str (row ! 5))])],
               rows_to_drop @ [fst (rs ! i)])
         else (rs, rows_to_drop))"

text \<open>\<^verbatim>\<open>for i in range(1, len(df))\<close>\<close>

definition step4_loop :: "(nat \<times> raw list) list \<Rightarrow> (nat \<times> raw list) list \<times> nat list" where
  "step4_loop rs = fold step4_body [1..<length rs] (rs, [])"

text \<open>\<^verbatim>\<open>df.drop(rows_to_drop)\<close>: the rows whose label is listed are removed.\<close>

definition drop_labels :: "nat list \<Rightarrow> 'a dataframe \<Rightarrow> 'a dataframe" where
  "drop_labels ls df = df\<lparr>body := filter (\<lambda>(l, r). l \<notin> set ls) (body df)\<rparr>"

definition step4 :: "raw dataframe \<Rightarrow> raw dataframe" where
  "step4 df = (let (rs, rows_to_drop) = step4_loop (body df) in drop_labels rows_to_drop (df\<lparr>body := rs\<rparr>))"

section \<open>Numbers and dates: steps 5 and 6\<close>

text \<open>
  The texts that \<^verbatim>\<open>pd.to_numeric\<close> reads as a finite number: an optional sign, decimal
  digits with an optional point (at least one digit in all), and an optional exponent, which is
  \<^verbatim>\<open>e\<close> or \<^verbatim>\<open>E\<close>, an optional sign and at least one digit. The empty text, \<^verbatim>\<open>nan\<close>
  and every text that is not of this form are not numbers. (pandas reads \<^verbatim>\<open>inf\<close> and
  \<^verbatim>\<open>infinity\<close> as the infinite values of a float64; the model, which has no such values,
  takes them for texts that are not numbers.)
\<close>

definition is_digit :: "char \<Rightarrow> bool" where
  "is_digit c = (let n = (of_char c :: int) in 48 \<le> n \<and> n \<le> 57)"

definition digits_value :: "string \<Rightarrow> int" where
  "digits_value s = fold (\<lambda>c n. 10 * n + (of_char c - 48)) s 0"

definition unsigned_decimal :: "string \<Rightarrow> rat option" where
  "unsigned_decimal s =
     (let ip = takeWhile is_digit s; rest = dropWhile is_digit s
      in if rest = [] then (if ip = [] then None else Some (of_int (digits_value ip)))
         else if hd rest = CHR ''.'' \<and> list_all is_digit (tl rest) \<and> (ip \<noteq> [] \<or> tl rest \<noteq> [])
              then Some (of_int (digits_value ip) + of_int (digits_value (tl rest)) / 10 ^ length (tl rest))
              else None)"

definition unsigned_integer :: "string \<Rightarrow> rat option" where
  "unsigned_integer s = (if s \<noteq> [] \<and> list_all is_digit s then Some (of_int (digits_value s)) else None)"

definition signed :: "(string \<Rightarrow> rat option) \<Rightarrow> string \<Rightarrow> rat option" where
  "signed p s =
     (case s of [] \<Rightarrow> None
      | c # cs \<Rightarrow> if c = CHR ''-'' then map_option uminus (p cs)
                 else if c = CHR ''+'' then p cs else p s)"

definition is_e :: "char \<Rightarrow> bool" where
  "is_e c = (c = CHR ''e'' \<or> c = CHR ''E'')"

definition scale10 :: "rat \<Rightarrow> rat \<Rightarrow> rat" where
  "scale10 q e = (if 0 \<le> e then q * 10 ^ nat \<lfloor>e\<rfloor> else q / 10 ^ nat \<lfloor>- e\<rfloor>)"

definition parse_number :: "string \<Rightarrow> rat option" where
  "parse_number s =
     (let m = takeWhile (\<lambda>c. \<not> is_e c) s; rest = dropWhile (\<lambda>c. \<not> is_e c) s
      in case signed unsigned_decimal m of None \<Rightarrow> None
         | Some q \<Rightarrow>
             if rest = [] then Some q
             else (case signed unsigned_integer (tl rest) of None \<Rightarrow> None
                   | Some e \<Rightarrow> Some (scale10 q e)))"

text \<open>
  Line 60 on one cell:
  \<^verbatim>\<open>pd.to_numeric(col.astype(str).str.replace(",", "").str.strip(), errors="coerce")\<close>
\<close>

definition str_replace_comma :: "string \<Rightarrow> string" where
  "str_replace_comma s = filter (\<lambda>c. c \<noteq> CHR '','') s"

definition to_numeric :: "raw \<Rightarrow> cell" where
  "to_numeric c =
     (case parse_number (strip (str_replace_comma (astype_str c))) of
        None \<Rightarrow> NaN | Some q \<Rightarrow> Num q)"

text \<open>A raw cell in a frame of typed columns: the same text, the same missing value.\<close>

fun of_raw :: "raw \<Rightarrow> cell" where
  "of_raw None = NaN"
| "of_raw (Some s) = Str s"

text \<open>
  The type that \<^verbatim>\<open>pd.to_numeric\<close> gives to a column. A text is read as an integer when it
  is an optional sign and digits, without point or exponent. The column is of 64-bit signed
  integers when every one of its texts is such an integer from \<open>- 2^63\<close> to \<open>2^63 - 1\<close>; of
  64-bit unsigned integers when every text is such an integer from 0 to \<open>2^64 - 1\<close> and
  one is above \<open>2^63 - 1\<close>; and of floats in every other case, so as soon as one cell is
  missing, has a fraction or is not a number.
\<close>

datatype dtype = int64 | uint64 | float64

definition is_integer_text :: "string \<Rightarrow> bool" where
  "is_integer_text s =
     (case s of [] \<Rightarrow> False
      | c # cs \<Rightarrow> if c = CHR ''-'' \<or> c = CHR ''+'' then cs \<noteq> [] \<and> list_all is_digit cs
                 else list_all is_digit s)"

definition integer_value :: "string \<Rightarrow> int" where
  "integer_value s =
     (case s of [] \<Rightarrow> 0
      | c # cs \<Rightarrow> if c = CHR ''-'' then - digits_value cs
                 else if c = CHR ''+'' then digits_value cs else digits_value s)"

definition to_numeric_dtype :: "raw list \<Rightarrow> dtype" where
  "to_numeric_dtype col =
     (let ts = map (\<lambda>c. strip (str_replace_comma (astype_str c))) col
      in if list_all (\<lambda>t. is_integer_text t \<and> - (2 ^ 63) \<le> integer_value t \<and> integer_value t < 2 ^ 64) ts
         then if list_all (\<lambda>t. integer_value t < 2 ^ 63) ts then int64
              else if list_all (\<lambda>t. 0 \<le> integer_value t) ts then uint64 else float64
         else float64)"

text \<open>
  \<^verbatim>\<open>num_cols\<close>, by position: DR, Amount_DR, CR, Amount_CR, No., Tran Type. The loop of lines
  59 and 60 replaces each of these columns by its conversion and leaves the others.
\<close>

definition num_cols :: "nat list" where
  "num_cols = [6, 7, 8, 9, 0, 2]"

definition step5 :: "raw dataframe \<Rightarrow> cell dataframe" where
  "step5 df =
     \<lparr>ncols = ncols df,
      body = map (\<lambda>(l, r). (l, map (\<lambda>j. if j \<in> set num_cols then to_numeric (r ! j) else of_raw (r ! j))
                                  [0..<length r])) (body df)\<rparr>"

text \<open>
  Line 63. How \<^verbatim>\<open>pd.to_datetime\<close> reads a column of texts is not modelled: \<open>to_datetime\<close> is
  any function that, from the column and a position in it, gives the date read there or
  nothing. \<^verbatim>\<open>errors="coerce"\<close> and \<^verbatim>\<open>.dt.date\<close> make of it a date or \<^verbatim>\<open>NaT\<close>.
\<close>

definition column :: "nat \<Rightarrow> 'a dataframe \<Rightarrow> 'a list" where
  "column c df = map (\<lambda>(l, r). r ! c) (body df)"

definition step6 :: "(cell list \<Rightarrow> nat \<Rightarrow> date option) \<Rightarrow> cell dataframe \<Rightarrow> cell dataframe" where
  "step6 to_datetime df =
     df\<lparr>body := map (\<lambda>(i, (l, r)). (l, r[1 := (case to_datetime (column 1 df) i of
                                                 None \<Rightarrow> NaT | Some d \<Rightarrow> Day d)]))
                    (zip [0..<length (body df)] (body df))\<rparr>"

section \<open>The debit and credit sheets: lines 66 to 87\<close>

definition notna :: "cell \<Rightarrow> bool" where
  "notna c = (c \<noteq> NaN \<and> c \<noteq> NaT)"

text \<open>The value of a cell of a numeric column, which holds numbers and \<^verbatim>\<open>NaN\<close> only.\<close>

fun num_of :: "cell \<Rightarrow> rat" where
  "num_of (Num q) = q"
| "num_of c = 0"

text \<open>\<^verbatim>\<open>df[df.iloc[:, c].notna()].copy()\<close>\<close>

definition getitem_notna :: "nat \<Rightarrow> cell dataframe \<Rightarrow> cell dataframe" where
  "getitem_notna c df = df\<lparr>body := filter (\<lambda>(l, r). notna (r ! c)) (body df)\<rparr>"

text \<open>
  \<^verbatim>\<open>sort_values(by=..., ascending=True)\<close> on a numeric column: the rows with a number in
  ascending order, then the rows with \<^verbatim>\<open>NaN\<close> in their order. The order that pandas gives to
  rows with equal numbers is not specified; the model keeps their order.
\<close>

definition sort_values :: "nat \<Rightarrow> cell dataframe \<Rightarrow> cell dataframe" where
  "sort_values c df =
     df\<lparr>body := sort_key (\<lambda>(l, r). num_of (r ! c)) (filter (\<lambda>(l, r). notna (r ! c)) (body df))
                 @ filter (\<lambda>(l, r). \<not> notna (r ! c)) (body df)\<rparr>"

text \<open>\<^verbatim>\<open>Series.count()\<close>: the number of cells that are not missing.\<close>

definition series_count :: "cell list \<Rightarrow> nat" where
  "series_count col = length (filter notna col)"

text \<open>
  \<^verbatim>\<open>Series.sum()\<close> skips the missing values and adds in the type of the column. In a column
  of 64-bit integers the sum wraps around: it is the sum modulo \<open>2^64\<close>, taken from
  \<open>- 2^63\<close> to \<open>2^63 - 1\<close> when the integers are signed. For unsigned integers the model
  takes the sum from 0 to \<open>2^64 - 1\<close>, as pandas 2 does; earlier versions add them as signed
  integers. In a column of floats the model gives the exact sum, where the code rounds. The
  properties below state the sum of a column of signed integers only.
\<close>

definition wrap_int64 :: "int \<Rightarrow> int" where
  "wrap_int64 i = (i + 2 ^ 63) mod 2 ^ 64 - 2 ^ 63"

definition series_sum :: "dtype \<Rightarrow> cell list \<Rightarrow> rat" where
  "series_sum ty col =
     (let s = sum_list (map num_of (filter notna col))
      in case ty of
           int64 \<Rightarrow> of_int (wrap_int64 \<lfloor>s\<rfloor>)
         | uint64 \<Rightarrow> of_int (\<lfloor>s\<rfloor> mod 2 ^ 64)
         | float64 \<Rightarrow> s)"

text \<open>
  The dictionaries \<^verbatim>\<open>debit_total\<close> and \<^verbatim>\<open>credit_total\<close> as a row over the ten columns:
  \<^verbatim>\<open>"TOTAL"\<close> under No., the count under column \<open>c1\<close> and the sum under column \<open>c2\<close>, whose
  type is \<open>ty\<close>; the columns that the dictionary does not name are missing in the row that
  \<^verbatim>\<open>pd.concat\<close> appends. The model writes \<open>NaN\<close> for each of them; under Value Date
  pandas may write the missing value as \<^verbatim>\<open>NaT\<close>, which is a missing value of the model as
  well (see \<open>notna\<close>).
\<close>

definition total_row :: "dtype \<Rightarrow> nat \<Rightarrow> nat \<Rightarrow> cell dataframe \<Rightarrow> cell list" where
  "total_row ty c1 c2 d =
     (replicate 10 NaN)[0 := Str ''TOTAL'',
                        c1 := Num (of_nat (series_count (column c1 d))),
                        c2 := Num (series_sum ty (column c2 d))]"

text \<open>\<^verbatim>\<open>pd.concat([d, pd.DataFrame([total])], ignore_index=True)\<close>\<close>

definition concat_total :: "cell dataframe \<Rightarrow> cell list \<Rightarrow> cell dataframe" where
  "concat_total d tot =
     d\<lparr>body := zip [0..<Suc (length (body d))] (map snd (body d) @ [tot])\<rparr>"

text \<open>\<^verbatim>\<open>drop(columns=[a, b])\<close>, by position.\<close>

definition drop_columns :: "nat list \<Rightarrow> 'a dataframe \<Rightarrow> 'a dataframe" where
  "drop_columns cs d =
     \<lparr>ncols = length (filter (\<lambda>j. j \<notin> set cs) [0..<ncols d]),
      body = map (\<lambda>(l, r). (l, map (\<lambda>j. r ! j) (filter (\<lambda>j. j \<notin> set cs) [0..<length r]))) (body d)\<rparr>"

text \<open>
  Lines 66 to 75 and 78 to 87. The frame does not say of what type its columns are; \<open>ty\<close> is
  the type that step 5 gave to the column of amounts, which the selection and the sort keep.
\<close>

definition df_debit :: "dtype \<Rightarrow> cell dataframe \<Rightarrow> cell dataframe" where
  "df_debit ty df =
     (let d = sort_values 7 (getitem_notna 6 df);
          debit_total = total_row ty 6 7 d
      in drop_columns [8, 9] (concat_total d debit_total))"

definition df_credit :: "dtype \<Rightarrow> cell dataframe \<Rightarrow> cell dataframe" where
  "df_credit ty df =
     (let d = sort_values 9 (getitem_notna 8 df);
          credit_total = total_row ty 8 9 d
      in drop_columns [6, 7] (concat_total d credit_total))"

text \<open>\<^verbatim>\<open>df.reset_index(drop=True)\<close>\<close>

definition reset_index :: "'a dataframe \<Rightarrow> 'a dataframe" where
  "reset_index df = df\<lparr>body := zip [0..<length (body df)] (map snd (body df))\<rparr>"

section \<open>The routine\<close>

text \<open>
  What \<^verbatim>\<open>clean_pdf\<close> computes from the extracted tables: the three frames that it writes to
  the sheets Cleaned, Debit and Credit. The temporary file, the extraction itself and the
  writing of the workbook are outside the model.
\<close>

record sheets =
  Cleaned :: "cell dataframe"
  Debit :: "cell dataframe"
  Credit :: "cell dataframe"

definition clean_pdf :: "(cell list \<Rightarrow> nat \<Rightarrow> date option) \<Rightarrow> string list list list \<Rightarrow> error + sheets" where
  "clean_pdf to_datetime tables =
     (case pd_concat (map DataFrame tables) of
        Inl e \<Rightarrow> Inl e
      | Inr df0 \<Rightarrow>
          (case set_columns (iloc_columns 10 df0) of
             Inl e \<Rightarrow> Inl e
           | Inr df1 \<Rightarrow>
               (case step3 (step2 (step1 df1)) of
                  Inl e \<Rightarrow> Inl e
                | Inr df3 \<Rightarrow>
                    (let df4 = step4 df3;
                         df = step6 to_datetime (step5 df4)
                     in Inr \<lparr>Cleaned = reset_index df,
                             Debit = df_debit (to_numeric_dtype (column 7 df4)) df,
                             Credit = df_credit (to_numeric_dtype (column 9 df4)) df\<rparr>))))"

section \<open>Objects and buffers: lines 66 to 90 in a store\<close>

text \<open>
  Python variables hold references to frame objects, and a frame object shows the data of a
  buffer; two frame objects can show the same buffer, and then a write through one is seen
  through the other. The store maps the addresses of frame objects to the addresses of their
  buffers, and the addresses of buffers to their data; \<open>fresh\<close> is the next address that
  was never used.
\<close>

type_synonym addr = nat

record store =
  frames :: "addr \<Rightarrow> addr option"
  buffers :: "addr \<Rightarrow> cell dataframe option"
  fresh :: addr

text \<open>The data that the frame object at an address shows.\<close>

definition data :: "store \<Rightarrow> addr \<Rightarrow> cell dataframe option" where
  "data s a = (case frames s a of None \<Rightarrow> None | Some b \<Rightarrow> buffers s b)"

text \<open>A new frame object over a new buffer.\<close>

definition new_frame :: "cell dataframe \<Rightarrow> store \<Rightarrow> addr \<times> store" where
  "new_frame d s =
     (Suc (fresh s),
      s\<lparr>frames := (frames s)(Suc (fresh s) \<mapsto> fresh s),
        buffers := (buffers s)(fresh s \<mapsto> d),
        fresh := Suc (Suc (fresh s))\<rparr>)"

text \<open>
  A call on a frame that makes the frame \<open>f d\<close> of the data \<open>d\<close> of its receiver. Called
  with \<^verbatim>\<open>inplace=True\<close> it overwrites the buffer of the receiver, so that every frame object
  over this buffer shows the change, and returns \<^verbatim>\<open>None\<close>. Called with \<^verbatim>\<open>inplace=False\<close>,
  which is the default, it returns a new frame object over a new buffer and writes nowhere
  else. A call on an address that holds no frame fails.
\<close>

definition frame_method :: "bool \<Rightarrow> (cell dataframe \<Rightarrow> cell dataframe) \<Rightarrow> addr \<Rightarrow> store \<Rightarrow> (addr option \<times> store) option" where
  "frame_method inplace f a s =
     (case frames s a of
        None \<Rightarrow> None
      | Some b \<Rightarrow>
          (case buffers s b of
             None \<Rightarrow> None
           | Some d \<Rightarrow>
               if inplace then Some (None, s\<lparr>buffers := (buffers s)(b \<mapsto> f d)\<rparr>)
               else (let (a', s') = new_frame (f d) s in Some (Some a', s'))))"

text \<open>
  The calls of lines 66 to 90. \<^verbatim>\<open>df[mask]\<close> with a mask of truth values and \<^verbatim>\<open>pd.concat\<close>
  have no \<^verbatim>\<open>inplace\<close>: they always return a new frame over new data.
  \<^verbatim>\<open>copy(deep=True)\<close>, the default, copies the data; \<^verbatim>\<open>copy(deep=False)\<close> returns a new frame
  object over the buffer of its receiver.
\<close>

definition getitem_notna_call :: "nat \<Rightarrow> addr \<Rightarrow> store \<Rightarrow> (addr option \<times> store) option" where
  "getitem_notna_call c = frame_method False (getitem_notna c)"

definition copy_call :: "bool \<Rightarrow> addr \<Rightarrow> store \<Rightarrow> (addr option \<times> store) option" where
  "copy_call deep a s =
     (if deep then frame_method False id a s
      else (case frames s a of
              None \<Rightarrow> None
            | Some b \<Rightarrow> Some (Some (fresh s), s\<lparr>frames := (frames s)(fresh s \<mapsto> b), fresh := Suc (fresh s)\<rparr>)))"

definition sort_values_call :: "nat \<Rightarrow> bool \<Rightarrow> addr \<Rightarrow> store \<Rightarrow> (addr option \<times> store) option" where
  "sort_values_call c inplace = frame_method inplace (sort_values c)"

definition concat_total_call :: "dtype \<Rightarrow> nat \<Rightarrow> nat \<Rightarrow> addr \<Rightarrow> store \<Rightarrow> (addr option \<times> store) option" where
  "concat_total_call ty c1 c2 = frame_method False (\<lambda>d. concat_total d (total_row ty c1 c2 d))"

definition drop_columns_call :: "nat list \<Rightarrow> bool \<Rightarrow> addr \<Rightarrow> store \<Rightarrow> (addr option \<times> store) option" where
  "drop_columns_call cs inplace = frame_method inplace (drop_columns cs)"

definition reset_index_call :: "bool \<Rightarrow> addr \<Rightarrow> store \<Rightarrow> (addr option \<times> store) option" where
  "reset_index_call inplace = frame_method inplace reset_index"

text \<open>
  An assignment \<^verbatim>\<open>x = call\<close> whose variable is used as a frame afterwards: the call must have
  returned a frame object, not \<^verbatim>\<open>None\<close>.
\<close>

definition assigned :: "(addr option \<times> store) option \<Rightarrow> (addr \<times> store) option" where
  "assigned r = (case r of Some (Some a, s) \<Rightarrow> Some (a, s) | _ \<Rightarrow> None)"

text \<open>
  Lines 66 to 90 as the source writes them: no call passes \<^verbatim>\<open>inplace\<close> or \<^verbatim>\<open>deep\<close>, so each
  has its default. \<open>df\<close> is the address that the variable \<^verbatim>\<open>df\<close> holds at line 66, and
  \<open>ty_dr\<close> and \<open>ty_cr\<close> are the types of its two columns of amounts. The result is the
  addresses that \<^verbatim>\<open>df\<close>, \<^verbatim>\<open>df_debit\<close> and \<^verbatim>\<open>df_credit\<close> hold after line 90, and the store.
\<close>

definition lines_66_to_90 :: "dtype \<Rightarrow> dtype \<Rightarrow> addr \<Rightarrow> store \<Rightarrow> ((addr \<times> addr \<times> addr) \<times> store) option" where
  "lines_66_to_90 ty_dr ty_cr df s0 = do {
     (selected, s1) \<leftarrow> assigned (getitem_notna_call 6 df s0);
     (debit_copy, s2) \<leftarrow> assigned (copy_call True selected s1);
     (debit_sorted, s3) \<leftarrow> assigned (sort_values_call 7 False debit_copy s2);
     (debit_with_total, s4) \<leftarrow> assigned (concat_total_call ty_dr 6 7 debit_sorted s3);
     (debit, s5) \<leftarrow> assigned (drop_columns_call [8, 9] False debit_with_total s4);
     (selected', s6) \<leftarrow> assigned (getitem_notna_call 8 df s5);
     (credit_copy, s7) \<leftarrow> assigned (copy_call True selected' s6);
     (credit_sorted, s8) \<leftarrow> assigned (sort_values_call 9 False credit_copy s7);
     (credit_with_total, s9) \<leftarrow> assigned (concat_total_call ty_cr 8 9 credit_sorted s8);
     (credit, s10) \<leftarrow> assigned (drop_columns_call [6, 7] False credit_with_total s9);
     (df', s11) \<leftarrow> assigned (reset_index_call False df s10);
     Some ((df', debit, credit), s11)
   }"

section \<open>Notions that the properties use\<close>

text \<open>The rows of a frame without their labels.\<close>

definition rows :: "'a dataframe \<Rightarrow> 'a list list" where
  "rows df = map snd (body df)"

text \<open>The rows of a sheet before its last row, which is the row of totals.\<close>

definition without_total :: "cell dataframe \<Rightarrow> cell list list" where
  "without_total d = butlast (rows d)"



text \<open>
  A column of cells is in ascending order when its numbers come first, in non-decreasing
  order, and its missing values last.
\<close>

definition ascending :: "cell list \<Rightarrow> bool" where
  "ascending ks = (sorted (map num_of (filter notna ks)) \<and> ks = filter notna ks @ filter (\<lambda>k. \<not> notna k) ks)"

text \<open>A cell of a numeric column: a number or \<^verbatim>\<open>NaN\<close>.\<close>

fun numeric :: "cell \<Rightarrow> bool" where
  "numeric (Num q) = True"
| "numeric NaN = True"
| "numeric c = False"

text \<open>
  Modelled from the spec: the raw-cell equivalent of a cell of the cleaned frame, which the
  source does not compute. The cells of a RawTable are texts, possibly empty, so a text is
  kept and a missing value is the empty text. A number and a date are printed by \<open>pn\<close> and
  \<open>pd\<close>, which stand for any printers.
\<close>

fun raw_of_cell :: "(rat \<Rightarrow> string) \<Rightarrow> (date \<Rightarrow> string) \<Rightarrow> cell \<Rightarrow> raw" where
  "raw_of_cell pn pd (Str s) = Some s"
| "raw_of_cell pn pd NaN = Some []"
| "raw_of_cell pn pd NaT = Some []"
| "raw_of_cell pn pd (Num q) = Some (pn q)"
| "raw_of_cell pn pd (Day d) = Some (pd d)"

text \<open>A cell of the cleaned frame whose raw-cell equivalent is blank: a missing value or a blank text.\<close>

fun null_or_blank :: "cell \<Rightarrow> bool" where
  "null_or_blank NaN = True"
| "null_or_blank NaT = True"
| "null_or_blank (Str s) = (strip s = [])"
| "null_or_blank (Num q) = False"
| "null_or_blank (Day d) = False"

definition raw_table :: "(rat \<Rightarrow> string) \<Rightarrow> (date \<Rightarrow> string) \<Rightarrow> cell dataframe \<Rightarrow> raw list list" where
  "raw_table pn pd df = map (map (raw_of_cell pn pd)) (rows df)"

text \<open>What the printers must give: a text that is not blank and holds neither phrase.\<close>

definition plain :: "string \<Rightarrow> bool" where
  "plain s = (strip s \<noteq> '''' \<and> \<not> str_contains ''table from page'' s \<and> \<not> str_contains ''Additional'' s)"

text \<open>
  The row at position \<open>j\<close> when the loop of step 4 has ended: it has received the text of the
  row below when that row is a continuation row, and is as it was otherwise.
\<close>

definition merged :: "(nat \<times> raw list) list \<Rightarrow> nat \<Rightarrow> nat \<times> raw list" where
  "merged rs j =
     (if Suc j < length rs \<and> is_continuation (snd (rs ! Suc j))
      then (fst (rs ! j),
            (snd (rs ! j))[5 := Some (astype_str (snd (rs ! j) ! 5) @ '' '' @ astype_str (snd (rs ! Suc j) ! 5))])
      else rs ! j)"

section \<open>A statement of eight rows\<close>

text \<open>
  One extracted table with a debit whose note continues on the next row, a page marker, a blank
  row, a header fragment, a credit, a second debit and a debit whose amount is not a number;
  then the frames that the routine makes of it.
\<close>

definition example_tables :: "string list list list" where
  "example_tables =
     [[[''1'', ''01/02/2024'', ''100'', ''REF1'', ''Acme'', ''Payment'', ''1'', ''1,250.50'', '''', ''''],
       ['''', '''', '''', '''', '''', ''note continued'', '''', '''', '''', ''''],
       [''table from page 2 of 5'', '''', '''', '''', '''', '''', '''', '''', '''', ''''],
       ['''', '''', '''', '''', '''', '''', '''', '''', '''', ''''],
       [''Additional'', '''', '''', '''', '''', '''', '''', '''', '''', ''''],
       [''2'', ''02/02/2024'', ''100'', ''REF2'', ''Bolt'', ''Refund'', '''', '''', ''1'', ''20.00''],
       [''3'', ''03/02/2024'', ''100'', ''REF3'', ''Core'', ''Fee'', ''1'', ''7.50'', '''', ''''],
       [''4'', ''04/02/2024'', ''100'', ''REF4'', ''Dune'', ''Hold'', ''1'', ''abc'', '''', '''']]]"

definition example_frame :: "raw dataframe" where
  "example_frame = \<lparr>ncols = 10, body = zip [0..<8] (map (map Some) (hd example_tables))\<rparr>"

definition example_kept :: "raw dataframe" where
  "example_kept = \<lparr>ncols = 10, body = filter (\<lambda>(l, r). l \<in> set [0, 1, 5, 6, 7]) (body example_frame)\<rparr>"

definition example_df :: "cell dataframe" where
  "example_df = \<lparr>ncols = 10, body =
     [(0, [Num 1, NaT, Num 100, Str ''REF1'', Str ''Acme'', Str ''Payment note continued'', Num 1, Num 1250.5, NaN, NaN]),
      (5, [Num 2, NaT, Num 100, Str ''REF2'', Str ''Bolt'', Str ''Refund'', NaN, NaN, Num 1, Num 20]),
      (6, [Num 3, NaT, Num 100, Str ''REF3'', Str ''Core'', Str ''Fee'', Num 1, Num 7.5, NaN, NaN]),
      (7, [Num 4, NaT, Num 100, Str ''REF4'', Str ''Dune'', Str ''Hold'', Num 1, NaN, NaN, NaN])]\<rparr>"

definition example_sheets :: sheets where
  "example_sheets =
     \<lparr>Cleaned = \<lparr>ncols = 10, body =
        [(0, [Num 1, NaT, Num 100, Str ''REF1'', Str ''Acme'', Str ''Payment note continued'', Num 1, Num 1250.5, NaN, NaN]),
         (1, [Num 2, NaT, Num 100, Str ''REF2'', Str ''Bolt'', Str ''Refund'', NaN, NaN, Num 1, Num 20]),
         (2, [Num 3, NaT, Num 100, Str ''REF3'', Str ''Core'', Str ''Fee'', Num 1, Num 7.5, NaN, NaN]),
         (3, [Num 4, NaT, Num 100, Str ''REF4'', Str ''Dune'', Str ''Hold'', Num 1, NaN, NaN, NaN])]\<rparr>,
      Debit = \<lparr>ncols = 8, body =
        [(0, [Num 3, NaT, Num 100, Str ''REF3'', Str ''Core'', Str ''Fee'', Num 1, Num 7.5]),
         (1, [Num 1, NaT, Num 100, Str ''REF1'', Str ''Acme'', Str ''Payment note continued'', Num 1, Num 1250.5]),
         (2, [Num 4, NaT, Num 100, Str ''REF4'', Str ''Dune'', Str ''Hold'', Num 1, NaN]),
         (3, [Str ''TOTAL'', NaN, NaN, NaN, NaN, NaN, Num 3, Num 1258])]\<rparr>,
      Credit = \<lparr>ncols = 8, body =
        [(0, [Num 2, NaT, Num 100, Str ''REF2'', Str ''Bolt'', Str ''Refund'', Num 1, Num 20]),
         (1, [Str ''TOTAL'', NaN, NaN, NaN, NaN, NaN, Num 1, Num 20])]\<rparr>\<rparr>"

section \<open>A split phrase and a line of text\<close>

text \<open>
  A debit whose note ends in \<^verbatim>\<open>table from\<close>, continued by a row that reads \<^verbatim>\<open>page 3\<close>, and
  a row whose only text, \<^verbatim>\<open>End of statement\<close>, stands under No.; the frame before step 4 and
  the sheets that the routine makes of the three rows.
\<close>

definition footer_tables :: "string list list list" where
  "footer_tables =
     [[[''1'', ''01/02/2024'', ''100'', ''REF1'', ''Acme'', ''see table from'', ''1'', ''50.00'', '''', ''''],
       ['''', '''', '''', '''', '''', ''page 3'', '''', '''', '''', ''''],
       [''End of statement'', '''', '''', '''', '''', '''', '''', '''', '''', '''']]]"

definition footer_kept :: "raw dataframe" where
  "footer_kept = \<lparr>ncols = 10, body = zip [0..<3] (map (map Some) (hd footer_tables))\<rparr>"

definition footer_sheets :: sheets where
  "footer_sheets =
     \<lparr>Cleaned = \<lparr>ncols = 10, body =
        [(0, [Num 1, NaT, Num 100, Str ''REF1'', Str ''Acme'', Str ''see table from page 3'', Num 1, Num 50, NaN, NaN]),
         (1, [NaN, NaT, NaN, Str '''', Str '''', Str '''', NaN, NaN, NaN, NaN])]\<rparr>,
      Debit = \<lparr>ncols = 8, body =
        [(0, [Num 1, NaT, Num 100, Str ''REF1'', Str ''Acme'', Str ''see table from page 3'', Num 1, Num 50]),
         (1, [Str ''TOTAL'', NaN, NaN, NaN, NaN, NaN, Num 1, Num 50])]\<rparr>,
      Credit = \<lparr>ncols = 8, body =
        [(0, [Str ''TOTAL'', NaN, NaN, NaN, NaN, NaN, Num 0, Num 0])]\<rparr>\<rparr>"

section \<open>Two debits whose amounts add up to more than a 64-bit integer holds\<close>




section \<open>Two transfers with whole amounts\<close>




section \<open>A store for the frame of the eight-row statement\<close>

text \<open>
  The variable \<^verbatim>\<open>df\<close> holds address 1: the frame object there shows buffer 0, which has the
  data of the frame of the eight-row statement. Nothing else is allocated.
\<close>

definition example_store :: store where
  "example_store = \<lparr>frames = (\<lambda>a. None)(1 \<mapsto> 0), buffers = (\<lambda>a. None)(0 \<mapsto> example_df), fresh = 2\<rparr>"

section \<open>Shapes of the frames\<close>

lemma fold_max_ge: "a \<le> fold max xs (a::nat)"
  by (induction xs arbitrary: a) (auto intro: order_trans[OF max.cobounded2])

lemma fold_max_mem: "x \<in> set xs \<Longrightarrow> x \<le> fold max xs (a::nat)"
proof (induction xs arbitrary: a)
  case Nil then show ?case by simp
next
  case (Cons y ys)
  show ?case
  proof (cases "x = y")
    case True
    have "max y a \<le> fold max ys (max y a)" by (rule fold_max_ge)
    with True show ?thesis by simp
  next
    case False with Cons show ?thesis by simp
  qed
qed

lemma length_reindex_columns: "length r \<le> w \<Longrightarrow> length (reindex_columns w r) = w"
  by (simp add: reindex_columns_def)

lemma rows_DataFrame: "r \<in> set (rows (DataFrame t)) \<Longrightarrow> length r = ncols (DataFrame t)"
proof -
  assume a: "r \<in> set (rows (DataFrame t))"
  let ?w = "fold max (map length t) 0"
  from a obtain r0 where r0: "r0 \<in> set t" and r: "r = reindex_columns ?w (map Some r0)"
    by (auto simp: rows_def DataFrame_def Let_def)
  have "length r0 \<le> ?w" using r0 by (intro fold_max_mem) simp
  then show ?thesis using r by (simp add: DataFrame_def Let_def length_reindex_columns)
qed

lemma pd_concat_Inr:
  assumes "pd_concat (map DataFrame tables) = Inr df"
  shows "\<forall>r \<in> set (rows df). length r = ncols df" and "map fst (body df) = [0..<length (body df)]"
proof -
  let ?dfs = "map DataFrame tables"
  let ?w = "fold max (map ncols ?dfs) 0"
  let ?rs = "concat (map (\<lambda>d. map snd (body d)) ?dfs)"
  from assms have ne: "tables \<noteq> []" and df: "df = \<lparr>ncols = ?w, body = zip [0..<length ?rs] (map (reindex_columns ?w) ?rs)\<rparr>"
    by (auto simp: pd_concat_def Let_def split: if_splits)
  show "map fst (body df) = [0..<length (body df)]"
    by (simp add: df)
  show "\<forall>r \<in> set (rows df). length r = ncols df"
  proof
    fix r assume "r \<in> set (rows df)"
    then obtain r0 where r0: "r0 \<in> set ?rs" and r: "r = reindex_columns ?w r0"
      by (auto simp: df rows_def)
    from r0 obtain t where t: "t \<in> set tables" and "r0 \<in> set (rows (DataFrame t))"
      by (auto simp: rows_def)
    then have "length r0 = ncols (DataFrame t)" by (simp add: rows_DataFrame)
    moreover have "ncols (DataFrame t) \<le> ?w" using t by (intro fold_max_mem) auto
    ultimately show "length r = ncols df" by (simp add: r df length_reindex_columns)
  qed
qed

lemma body_getitem_not_apply: "body (getitem_not_apply f df) = filter (\<lambda>(l, r). \<not> f r) (body df)"
  by (simp add: getitem_not_apply_def)

lemma body_step1: "body (step1 df) = filter (\<lambda>(l, r). \<not> contains_table_from_page r) (body df)"
  by (simp add: step1_def body_getitem_not_apply)

lemma body_step2: "body (step2 df) = filter (\<lambda>(l, r). \<not> all_blank r) (filter (\<lambda>(l, r). \<not> list_all (\<lambda>c. c = None) r) (body df))"
  by (simp add: step2_def body_getitem_not_apply dropna_all_def)

lemma body_step3: "step3 df = Inr df' \<Longrightarrow> body df' = filter (\<lambda>(l, r). \<not> contains_Additional r) (body df)"
  by (auto simp: step3_def split: if_splits)

lemma body_steps123:
  assumes "step3 (step2 (step1 df)) = Inr df3"
  shows "set (body df3) \<subseteq> set (body df)" and "distinct (map fst (body df)) \<Longrightarrow> distinct (map fst (body df3))"
  using assms by (auto simp: body_step3 body_step2 body_step1 distinct_map_filter)

lemma step4_prefix:
  "k \<le> length rs \<Longrightarrow> 1 \<le> k \<Longrightarrow>
   fold step4_body [1..<k] (rs, []) =
     (map (\<lambda>j. if Suc j < k then merged rs j else rs ! j) [0..<length rs],
      map (\<lambda>i. fst (rs ! i)) (filter (\<lambda>i. is_continuation (snd (rs ! i))) [1..<k]))"
proof (induction k)
  case 0 then show ?case by simp
next
  case (Suc k)
  show ?case
  proof (cases "k = 0")
    case True
    then show ?thesis by (auto intro!: nth_equalityI)
  next
    case False
    with Suc.prems have k: "1 \<le> k" "k < length rs" "k \<le> length rs" by auto
    let ?rs = "map (\<lambda>j. if Suc j < k then merged rs j else rs ! j) [0..<length rs]"
    let ?ds = "map (\<lambda>i. fst (rs ! i)) (filter (\<lambda>i. is_continuation (snd (rs ! i))) [1..<k])"
    have ih: "fold step4_body [1..<k] (rs, []) = (?rs, ?ds)" using Suc.IH k by simp
    have upt: "[1..<Suc k] = [1..<k] @ [k]" using k by simp
    have at_k: "?rs ! k = rs ! k" using k by simp
    have at_k1: "?rs ! (k - 1) = rs ! (k - 1)" using k by simp
    have "fold step4_body [1..<Suc k] (rs, []) = step4_body k (?rs, ?ds)"
      by (simp only: upt fold_append o_apply ih fold_simps)
    also have "\<dots> = (map (\<lambda>j. if Suc j < Suc k then merged rs j else rs ! j) [0..<length rs],
      map (\<lambda>i. fst (rs ! i)) (filter (\<lambda>i. is_continuation (snd (rs ! i))) [1..<Suc k]))"
    proof (cases "is_continuation (snd (rs ! k))")
      case True
      have "?rs[k - 1 := merged rs (k - 1)] = map (\<lambda>j. if Suc j < Suc k then merged rs j else rs ! j) [0..<length rs]"
        using k by (intro nth_equalityI) (auto simp: nth_list_update less_Suc_eq)
      moreover have "merged rs (k - 1) = (fst (rs ! (k - 1)), (snd (rs ! (k - 1)))[5 := Some (astype_str (snd (rs ! (k - 1)) ! 5) @ '' '' @ astype_str (snd (rs ! k) ! 5))])"
        using k True by (simp add: merged_def)
      ultimately show ?thesis using True k
        by (simp add: step4_body_def at_k at_k1 del: upt_Suc) (simp add: upt)
    next
      case False
      have "merged rs (k - 1) = rs ! (k - 1)" using k False by (simp add: merged_def)
      then have "?rs = map (\<lambda>j. if Suc j < Suc k then merged rs j else rs ! j) [0..<length rs]"
        using k by (intro nth_equalityI) (auto simp: less_Suc_eq)
      then show ?thesis using False k
        by (simp add: step4_body_def at_k del: upt_Suc) (simp add: upt)
    qed
    finally show ?thesis .
  qed
qed

lemma step4_loop_closed:
  "step4_loop rs =
     (map (merged rs) [0..<length rs],
      map (\<lambda>i. fst (rs ! i)) (filter (\<lambda>i. is_continuation (snd (rs ! i))) [1..<length rs]))"
proof (cases "rs = []")
  case True then show ?thesis by (simp add: step4_loop_def)
next
  case False
  then have "1 \<le> length rs" by (cases rs) auto
  from step4_prefix[OF order_refl this] show ?thesis
    by (simp add: step4_loop_def merged_def cong: map_cong)
qed

lemma fst_merged: "fst (merged rs j) = fst (rs ! j)"
  by (simp add: merged_def)

lemma length_snd_merged: "length (snd (merged rs j)) = length (snd (rs ! j))"
  by (simp add: merged_def)

lemma body_step4:
  "body (step4 df) =
     filter (\<lambda>(l, r). l \<notin> (\<lambda>i. fst (body df ! i)) ` {i. 1 \<le> i \<and> i < length (body df) \<and> is_continuation (snd (body df ! i))})
            (map (merged (body df)) [0..<length (body df)])"
proof -
  have "set (filter (\<lambda>i. is_continuation (snd (body df ! i))) [1..<length (body df)]) = {i. 1 \<le> i \<and> i < length (body df) \<and> is_continuation (snd (body df ! i))}"
    by auto
  then show ?thesis
    by (simp add: step4_def step4_loop_closed drop_labels_def)
qed

lemma map_fst_merged: "map fst (map (merged rs) [0..<length rs]) = map fst rs"
  by (intro nth_equalityI) (auto simp: fst_merged)

lemma step4_rows_length:
  assumes "\<forall>r \<in> set (rows df). length r = n"
  shows "\<forall>r \<in> set (rows (step4 df)). length r = n"
proof -
  have "length (snd (merged (body df) j)) = n" if "j < length (body df)" for j
    using assms that by (simp add: length_snd_merged rows_def)
  then show ?thesis
    by (auto simp: rows_def body_step4) (metis snd_conv)
qed

lemma length_filter_labels:
  assumes "distinct (map fst xs)" and "distinct ds" and "set ds \<subseteq> fst ` set xs"
  shows "length (filter (\<lambda>(l, r). l \<notin> set ds) xs) + length ds = length xs"
proof -
  have "length (filter (\<lambda>(l, r). l \<in> set ds) xs) = length (filter (\<lambda>l. l \<in> set ds) (map fst xs))"
    by (simp add: o_def case_prod_unfold)
  also have "\<dots> = card ({l. l \<in> set ds} \<inter> set (map fst xs))"
    using assms(1) by (rule distinct_length_filter)
  also have "{l. l \<in> set ds} \<inter> set (map fst xs) = set ds" using assms(3) by auto
  also have "card (set ds) = length ds" using assms(2) by (rule distinct_card)
  finally have "length (filter (\<lambda>(l, r). l \<in> set ds) xs) = length ds" .
  moreover have "length (filter (\<lambda>(l, r). l \<in> set ds) xs) + length (filter (\<lambda>x. \<not> (case x of (l, r) \<Rightarrow> l \<in> set ds)) xs) = length xs"
    by (rule sum_length_filter_compl)
  ultimately show ?thesis by (simp add: case_prod_unfold)
qed

lemma step4_count:
  assumes "distinct (map fst (body df))"
  shows "length (body (step4 df)) + length (snd (step4_loop (body df))) = length (body df)"
proof -
  let ?rs = "body df"
  let ?is = "filter (\<lambda>i. is_continuation (snd (?rs ! i))) [1..<length ?rs]"
  let ?ds = "map (\<lambda>i. fst (?rs ! i)) ?is"
  let ?rs' = "map (merged ?rs) [0..<length ?rs]"
  have ds: "?ds = map ((!) (map fst ?rs)) ?is"
    by (rule map_cong) auto
  have "inj_on ((!) (map fst ?rs)) {i. i < length (map fst ?rs)}"
    using assms by (rule inj_on_nth) auto
  then have "inj_on ((!) (map fst ?rs)) (set ?is)"
    by (rule inj_on_subset) auto
  then have d: "distinct ?ds" unfolding ds by (simp add: distinct_map)
  have s: "set ?ds \<subseteq> fst ` set ?rs'"
  proof
    fix l assume "l \<in> set ?ds"
    then obtain i where i: "i < length ?rs" "l = fst (?rs ! i)" by auto
    then have "l = fst (?rs' ! i)" by (simp add: fst_merged)
    moreover have "?rs' ! i \<in> set ?rs'" using i by (intro nth_mem) simp
    ultimately show "l \<in> fst ` set ?rs'" by blast
  qed
  have "distinct (map fst ?rs')" using assms by (simp only: map_fst_merged)
  from length_filter_labels[OF this d s]
  show ?thesis by (simp add: step4_def step4_loop_closed drop_labels_def)
qed

lemma step5_rows_length:
  assumes "\<forall>r \<in> set (rows df). length r = n"
  shows "\<forall>r \<in> set (rows (step5 df)). length r = n"
  using assms by (auto simp: rows_def step5_def)

lemma step5_length: "length (body (step5 df)) = length (body df)"
  by (simp add: step5_def)

lemma step6_rows_length:
  assumes "\<forall>r \<in> set (rows df). length r = n"
  shows "\<forall>r \<in> set (rows (step6 dt df)). length r = n"
  using assms by (auto simp: rows_def step6_def dest!: set_zip_rightD)

lemma step6_length: "length (body (step6 dt df)) = length (body df)"
  by (simp add: step6_def)

lemma clean_pdf_Inr:
  assumes "clean_pdf dt tables = Inr out"
  obtains df0 df3 where "pd_concat (map DataFrame tables) = Inr df0" and "10 \<le> ncols df0"
    and "step3 (step2 (step1 (iloc_columns 10 df0))) = Inr df3"
    and "out = \<lparr>Cleaned = reset_index (step6 dt (step5 (step4 df3))),
                Debit = df_debit (to_numeric_dtype (column 7 (step4 df3))) (step6 dt (step5 (step4 df3))),
                Credit = df_credit (to_numeric_dtype (column 9 (step4 df3))) (step6 dt (step5 (step4 df3)))\<rparr>"
  using assms
  by (auto simp: clean_pdf_def set_columns_def iloc_columns_def Let_def split: sum.splits if_splits)

lemma truncated_shape:
  assumes "pd_concat (map DataFrame tables) = Inr df0" and "10 \<le> ncols df0"
  shows "\<forall>r \<in> set (rows (iloc_columns 10 df0)). length r = 10"
    and "distinct (map fst (body (iloc_columns 10 df0)))"
proof -
  from pd_concat_Inr[OF assms(1)] have a: "\<forall>r \<in> set (rows df0). length r = ncols df0"
    and b: "map fst (body df0) = [0..<length (body df0)]" by auto
  show "\<forall>r \<in> set (rows (iloc_columns 10 df0)). length r = 10"
    using a assms(2) by (auto simp: rows_def iloc_columns_def)
  have "map fst (body (iloc_columns 10 df0)) = map fst (body df0)"
    by (simp add: iloc_columns_def case_prod_beta)
  then show "distinct (map fst (body (iloc_columns 10 df0)))" by (simp add: b)
qed

lemma line_66_shape:
  assumes "pd_concat (map DataFrame tables) = Inr df0" and "10 \<le> ncols df0"
    and "step3 (step2 (step1 (iloc_columns 10 df0))) = Inr df3"
  shows "\<forall>r \<in> set (rows (step6 dt (step5 (step4 df3)))). length r = 10"
proof -
  have "\<forall>r \<in> set (rows df3). length r = 10"
    using truncated_shape(1)[OF assms(1,2)] body_steps123(1)[OF assms(3)]
    by (auto simp: rows_def)
  then show ?thesis
    by (intro step6_rows_length step5_rows_length step4_rows_length)
qed

section \<open>When the routine returns\<close>

text \<open>
  The routine returns its three sheets exactly when there is a table, the concatenated table
  has ten columns or more, and a row is left after step 1 and \<^verbatim>\<open>dropna\<close>. The contents of
  the cells decide nothing else: no text in a cell makes a later step fail.
\<close>

lemma clean_pdf_returns:
  "(\<exists>out. clean_pdf to_datetime tables = Inr out) \<longleftrightarrow>
   (\<exists>df0. pd_concat (map DataFrame tables) = Inr df0 \<and> 10 \<le> ncols df0 \<and>
          body (dropna_all (step1 (iloc_columns 10 df0))) \<noteq> [])"
proof -
  have s: "(\<exists>df3. step3 (step2 (step1 df1)) = Inr df3) \<longleftrightarrow> body (dropna_all (step1 df1)) \<noteq> []"
    if "ncols df1 = 10" for df1 :: "raw dataframe"
    using that
    by (auto simp: step3_def step2_def step1_def getitem_not_apply_def dropna_all_def)
  show ?thesis
  proof (cases "pd_concat (map DataFrame tables)")
    case (Inl e)
    then show ?thesis by (simp add: clean_pdf_def)
  next
    case (Inr df0)
    show ?thesis
    proof (cases "10 \<le> ncols df0")
      case True
      then have n: "ncols (iloc_columns 10 df0) = 10" by (simp add: iloc_columns_def)
      have "(\<exists>out. clean_pdf to_datetime tables = Inr out) \<longleftrightarrow> (\<exists>df3. step3 (step2 (step1 (iloc_columns 10 df0))) = Inr df3)"
        using n by (auto simp: clean_pdf_def Inr set_columns_def Let_def split: sum.splits)
      with s[OF n] True Inr show ?thesis by simp
    next
      case False
      then show ?thesis by (simp add: clean_pdf_def Inr set_columns_def iloc_columns_def)
    qed
  qed
qed

section \<open>The sheets, by rows\<close>

lemma upt_10: "[0..<10] = [0, 1, 2, 3, 4, 5, 6, 7, 8, 9]"
  by code_simp

lemma keep_8_9: "length r = 10 \<Longrightarrow>
  map ((!) r) (filter (\<lambda>j. j \<notin> set [8, 9]) [0..<length r]) = [r ! 0, r ! 1, r ! 2, r ! 3, r ! 4, r ! 5, r ! 6, r ! 7]"
  by (simp add: upt_10)

lemma keep_6_7: "length r = 10 \<Longrightarrow>
  map ((!) r) (filter (\<lambda>j. j \<notin> set [6, 7]) [0..<length r]) = [r ! 0, r ! 1, r ! 2, r ! 3, r ! 4, r ! 5, r ! 8, r ! 9]"
  by (simp add: upt_10)

lemma total_row_6_7: "total_row ty 6 7 d = [Str ''TOTAL'', NaN, NaN, NaN, NaN, NaN,
    Num (of_nat (series_count (column 6 d))), Num (series_sum ty (column 7 d)), NaN, NaN]"
  unfolding total_row_def by code_simp

lemma total_row_8_9: "total_row ty 8 9 d = [Str ''TOTAL'', NaN, NaN, NaN, NaN, NaN, NaN, NaN,
    Num (of_nat (series_count (column 8 d))), Num (series_sum ty (column 9 d))]"
  unfolding total_row_def by code_simp

lemma rows_drop_columns: "rows (drop_columns cs d) = map (\<lambda>r. map ((!) r) (filter (\<lambda>j. j \<notin> set cs) [0..<length r])) (rows d)"
  by (simp add: rows_def drop_columns_def case_prod_unfold)

lemma rows_concat_total: "rows (concat_total d t) = rows d @ [t]"
  by (simp add: rows_def concat_total_def)

lemma rows_reset_index: "rows (reset_index df) = rows df"
  by (simp add: rows_def reset_index_def)

lemma body_selected:
  "body (sort_values c2 (getitem_notna c1 df)) =
     sort_key (\<lambda>(l, r). num_of (r ! c2)) (filter (\<lambda>(l, r). notna (r ! c2)) (filter (\<lambda>(l, r). notna (r ! c1)) (body df)))
     @ filter (\<lambda>(l, r). \<not> notna (r ! c2)) (filter (\<lambda>(l, r). notna (r ! c1)) (body df))"
  by (simp add: sort_values_def getitem_notna_def)

lemma set_rows_selected: "set (rows (sort_values c2 (getitem_notna c1 df))) = {r \<in> set (rows df). notna (r ! c1)}"
  by (force simp: rows_def body_selected case_prod_unfold)


lemma rows_df_debit:
  assumes "\<forall>r \<in> set (rows df). length r = 10"
  shows "rows (df_debit ty df) =
     map (\<lambda>r. [r ! 0, r ! 1, r ! 2, r ! 3, r ! 4, r ! 5, r ! 6, r ! 7]) (rows (sort_values 7 (getitem_notna 6 df)))
     @ [[Str ''TOTAL'', NaN, NaN, NaN, NaN, NaN,
         Num (of_nat (series_count (column 6 (sort_values 7 (getitem_notna 6 df))))),
         Num (series_sum ty (column 7 (sort_values 7 (getitem_notna 6 df))))]]"
proof -
  have "\<forall>r \<in> set (rows (sort_values 7 (getitem_notna 6 df))). length r = 10"
    using assms by (simp add: set_rows_selected)
  then show ?thesis
    by (simp add: df_debit_def Let_def rows_drop_columns rows_concat_total total_row_6_7 keep_8_9 upt_10 cong: map_cong)
qed

lemma rows_df_credit:
  assumes "\<forall>r \<in> set (rows df). length r = 10"
  shows "rows (df_credit ty df) =
     map (\<lambda>r. [r ! 0, r ! 1, r ! 2, r ! 3, r ! 4, r ! 5, r ! 8, r ! 9]) (rows (sort_values 9 (getitem_notna 8 df)))
     @ [[Str ''TOTAL'', NaN, NaN, NaN, NaN, NaN,
         Num (of_nat (series_count (column 8 (sort_values 9 (getitem_notna 8 df))))),
         Num (series_sum ty (column 9 (sort_values 9 (getitem_notna 8 df))))]]"
proof -
  have "\<forall>r \<in> set (rows (sort_values 9 (getitem_notna 8 df))). length r = 10"
    using assms by (simp add: set_rows_selected)
  then show ?thesis
    by (simp add: df_credit_def Let_def rows_drop_columns rows_concat_total total_row_8_9 keep_6_7 upt_10 cong: map_cong)
qed






lemma ascending_append:
  assumes "\<forall>k \<in> set xs. notna k" and "\<forall>k \<in> set ys. \<not> notna k" and "sorted (map num_of xs)"
  shows "ascending (xs @ ys)"
proof -
  have "filter notna xs = xs" "filter (\<lambda>k. \<not> notna k) ys = ys" using assms by (auto intro: filter_True)
  moreover have "filter notna ys = []" "filter (\<lambda>k. \<not> notna k) xs = []" using assms by (auto simp: filter_empty_conv)
  ultimately show ?thesis using assms(3) by (simp add: ascending_def)
qed

lemma ascending_selected: "ascending (map (\<lambda>r. r ! c2) (rows (sort_values c2 (getitem_notna c1 df))))"
proof -
  define sel where "sel = filter (\<lambda>x. notna (snd x ! c2)) (filter (\<lambda>x. notna (snd x ! c1)) (body df))"
  define B where "B = filter (\<lambda>x. \<not> notna (snd x ! c2)) (filter (\<lambda>x. notna (snd x ! c1)) (body df))"
  define A where "A = sort_key (\<lambda>x. num_of (snd x ! c2)) sel"
  have "body (sort_values c2 (getitem_notna c1 df)) = A @ B"
    unfolding body_selected A_def B_def sel_def case_prod_unfold ..
  then have ks: "map (\<lambda>r. r ! c2) (rows (sort_values c2 (getitem_notna c1 df))) = map (\<lambda>x. snd x ! c2) A @ map (\<lambda>x. snd x ! c2) B"
    by (simp add: rows_def o_def)
  have "sorted (map (\<lambda>x. num_of (snd x ! c2)) A)" unfolding A_def by (rule sorted_sort_key)
  then have s: "sorted (map num_of (map (\<lambda>x. snd x ! c2) A))" by (simp add: o_def)
  have a: "\<forall>k \<in> set (map (\<lambda>x. snd x ! c2) A). notna k" by (auto simp: A_def sel_def)
  have b: "\<forall>k \<in> set (map (\<lambda>x. snd x ! c2) B). \<not> notna k" by (auto simp: B_def)
  show ?thesis unfolding ks by (rule ascending_append[OF a b s])
qed


lemma series_sum_Nil: "series_sum ty [] = 0"
  by (cases ty) (simp_all add: series_sum_def wrap_int64_def)

lemma numeric_to_numeric: "numeric (to_numeric c)"
  by (simp add: to_numeric_def split: option.splits)

lemma rows_step5: "rows (step5 df) =
    map (\<lambda>r. map (\<lambda>j. if j \<in> set num_cols then to_numeric (r ! j) else of_raw (r ! j)) [0..<length r]) (rows df)"
  by (simp add: rows_def step5_def case_prod_unfold o_def)

lemma step5_numeric:
  assumes "\<forall>r \<in> set (rows df). length r = 10" and "r \<in> set (rows (step5 df))" and "c \<in> set num_cols"
  shows "numeric (r ! c)"
proof -
  from assms(2) obtain r0 where r0: "r0 \<in> set (rows df)"
    and r: "r = map (\<lambda>j. if j \<in> set num_cols then to_numeric (r0 ! j) else of_raw (r0 ! j)) [0..<length r0]"
    unfolding rows_step5 by auto
  have "c < 10" using assms(3) by (auto simp: num_cols_def)
  then have "c < length r0" using assms(1) r0 by simp
  then show ?thesis using assms(3) by (simp add: r numeric_to_numeric)
qed

lemma step6_other_columns:
  assumes "r \<in> set (rows (step6 dt df))"
  obtains r0 x where "r0 \<in> set (rows df)" and "r = r0[1 := x]"
proof -
  from assms obtain i l r0 where "(i, (l, r0)) \<in> set (zip [0..<length (body df)] (body df))"
    and r: "r = r0[1 := (case dt (column 1 df) i of None \<Rightarrow> NaT | Some d \<Rightarrow> Day d)]"
    by (auto simp: rows_def step6_def)
  then have "(l, r0) \<in> set (body df)" by (auto dest: set_zip_rightD)
  then have "r0 \<in> set (rows df)" by (force simp: rows_def)
  with r that show ?thesis by blast
qed

lemma line_66_numeric:
  assumes "\<forall>r \<in> set (rows df). length r = 10" and "r \<in> set (rows (step6 dt (step5 df)))"
  shows "numeric (r ! 6) \<and> numeric (r ! 7) \<and> numeric (r ! 8) \<and> numeric (r ! 9)"
proof -
  from assms(2) obtain r0 x where r0: "r0 \<in> set (rows (step5 df))" and r: "r = r0[1 := x]"
    by (rule step6_other_columns)
  have "numeric (r0 ! 6)" "numeric (r0 ! 7)" "numeric (r0 ! 8)" "numeric (r0 ! 9)"
    using step5_numeric[OF assms(1) r0] by (simp_all add: num_cols_def)
  then show ?thesis by (simp add: r)
qed

lemma butlast_rows_sheet: "butlast (xs @ [t]) = xs" and last_rows_sheet: "last (xs @ [t]) = t"
  by simp_all

section \<open>The rows of the cleaned frame, cell by cell\<close>

lemma no_phrase_Nil: "\<not> str_contains ''table from page'' []" "\<not> str_contains ''Additional'' []"
  by code_simp+

lemma strip_Nil: "strip [] = []"
  by (simp add: strip_def)

lemma numeric_cell_no_phrase:
  assumes "\<forall>q. plain (pn q)"
  shows "\<not> str_contains ''table from page'' (astype_str (raw_of_cell pn pd (to_numeric c)))"
    and "\<not> str_contains ''Additional'' (astype_str (raw_of_cell pn pd (to_numeric c)))"
  using assms by (simp_all add: to_numeric_def no_phrase_Nil plain_def split: option.splits)

lemma date_cell_no_phrase:
  assumes "\<forall>d. plain (pd d)" and "x = NaT \<or> (\<exists>d. x = Day d)"
  shows "\<not> str_contains ''table from page'' (astype_str (raw_of_cell pn pd x))"
  using assms by (auto simp: no_phrase_Nil plain_def)

lemma blank_raw_of_cell:
  assumes "\<forall>q. plain (pn q)" and "\<forall>d. plain (pd d)"
  shows "strip (astype_str (raw_of_cell pn pd c)) = [] \<longleftrightarrow> null_or_blank c"
  using assms by (cases c) (simp_all add: strip_Nil plain_def)

lemma null_or_blank_to_numeric: "null_or_blank (to_numeric c) \<longleftrightarrow> to_numeric c = NaN"
  by (simp add: to_numeric_def split: option.splits)

lemma text_cell_phrase:
  assumes "str_contains ''table from page'' (astype_str (raw_of_cell pn pd (of_raw c)))"
  shows "str_contains ''table from page'' (astype_str c)"
  using assms by (cases c) (simp_all add: no_phrase_Nil)

lemma rows_step4:
  assumes "r \<in> set (rows (step4 df))"
  obtains j where "j < length (body df)" and "r = snd (merged (body df) j)"
  using assms by (auto simp: rows_def body_step4)

lemma rows_step6:
  assumes "r \<in> set (rows (step6 dt df))"
  obtains r0 x where "r0 \<in> set (rows df)" and "r = r0[1 := x]" and "x = NaT \<or> (\<exists>d. x = Day d)"
proof -
  from assms obtain i l r0 where "(i, (l, r0)) \<in> set (zip [0..<length (body df)] (body df))"
    and r: "r = r0[1 := (case dt (column 1 df) i of None \<Rightarrow> NaT | Some d \<Rightarrow> Day d)]"
    by (auto simp: rows_def step6_def)
  then have "(l, r0) \<in> set (body df)" by (auto dest: set_zip_rightD)
  then have "r0 \<in> set (rows df)" by (force simp: rows_def)
  moreover have "(case dt (column 1 df) i of None \<Rightarrow> NaT | Some d \<Rightarrow> Day d) = NaT \<or>
     (\<exists>d. (case dt (column 1 df) i of None \<Rightarrow> NaT | Some d \<Rightarrow> Day d) = Day d)"
    by (simp split: option.splits)
  ultimately show ?thesis using r that by blast
qed

lemma convert_row_10: "length r = 10 \<Longrightarrow>
  map (\<lambda>j. if j \<in> set num_cols then to_numeric (r ! j) else of_raw (r ! j)) [0..<length r] =
  [to_numeric (r ! 0), of_raw (r ! 1), to_numeric (r ! 2), of_raw (r ! 3), of_raw (r ! 4), of_raw (r ! 5),
   to_numeric (r ! 6), to_numeric (r ! 7), to_numeric (r ! 8), to_numeric (r ! 9)]"
  by (simp add: upt_10 num_cols_def)

lemma cleaned_row:
  assumes "\<forall>r \<in> set (rows df). length r = 10" and "r \<in> set (rows (step6 dt (step5 df)))"
  obtains r0 x where "r0 \<in> set (rows df)" and "x = NaT \<or> (\<exists>d. x = Day d)"
    and "r = [to_numeric (r0 ! 0), x, to_numeric (r0 ! 2), of_raw (r0 ! 3), of_raw (r0 ! 4), of_raw (r0 ! 5),
              to_numeric (r0 ! 6), to_numeric (r0 ! 7), to_numeric (r0 ! 8), to_numeric (r0 ! 9)]"
proof -
  from assms(2) obtain r5 x where r5: "r5 \<in> set (rows (step5 df))" and r: "r = r5[1 := x]"
    and x: "x = NaT \<or> (\<exists>d. x = Day d)" by (rule rows_step6)
  from r5 obtain r0 where r0: "r0 \<in> set (rows df)"
    and "r5 = map (\<lambda>j. if j \<in> set num_cols then to_numeric (r0 ! j) else of_raw (r0 ! j)) [0..<length r0]"
    unfolding rows_step5 by auto
  moreover have "length r0 = 10" using assms(1) r0 by simp
  ultimately have "r5 = [to_numeric (r0 ! 0), of_raw (r0 ! 1), to_numeric (r0 ! 2), of_raw (r0 ! 3), of_raw (r0 ! 4), of_raw (r0 ! 5),
   to_numeric (r0 ! 6), to_numeric (r0 ! 7), to_numeric (r0 ! 8), to_numeric (r0 ! 9)]"
    using convert_row_10[of r0] by simp
  with r have "r = [to_numeric (r0 ! 0), x, to_numeric (r0 ! 2), of_raw (r0 ! 3), of_raw (r0 ! 4), of_raw (r0 ! 5),
              to_numeric (r0 ! 6), to_numeric (r0 ! 7), to_numeric (r0 ! 8), to_numeric (r0 ! 9)]" by simp
  with r0 x that show ?thesis by blast
qed

lemma no_phrase_cell:
  assumes "\<not> contains_table_from_page r" and "j < length r"
  shows "\<not> str_contains ''table from page'' (astype_str (r ! j))"
  using assms by (auto simp: contains_table_from_page_def list_ex_iff)

lemma strip_eq_Nil: "strip s = [] \<longleftrightarrow> (\<forall>c \<in> set s. is_space c)"
proof
  assume a: "strip s = []"
  show "\<forall>c \<in> set s. is_space c"
  proof (rule ccontr)
    assume "\<not> (\<forall>c \<in> set s. is_space c)"
    then have n: "dropWhile is_space s \<noteq> []" by (simp add: dropWhile_eq_Nil_conv)
    then have "\<not> is_space (hd (dropWhile is_space s))" by (rule hd_dropWhile)
    moreover have "hd (dropWhile is_space s) \<in> set (rev (dropWhile is_space s))" using n by simp
    ultimately have "dropWhile is_space (rev (dropWhile is_space s)) \<noteq> []"
      by (auto simp: dropWhile_eq_Nil_conv)
    then show False using a by (simp add: strip_def)
  qed
next
  assume "\<forall>c \<in> set s. is_space c"
  then have d: "dropWhile is_space s = []" by (simp add: dropWhile_eq_Nil_conv)
  show "strip s = []" unfolding strip_def d by simp
qed

lemma strip_joined: "strip b \<noteq> [] \<Longrightarrow> strip (a @ '' '' @ b) \<noteq> []"
  by (auto simp: strip_eq_Nil)

lemma raw_of_cell_Some: "raw_of_cell pn pd c \<noteq> None"
  by (cases c) simp_all

lemma below_10: "k < 10 \<Longrightarrow> k \<in> {0, 1, 2, 3, 4, 5, 6, 7, 8, 9::nat}"
  by auto

section \<open>Stripping\<close>

lemma space_not_comma: "is_space c \<Longrightarrow> c \<noteq> CHR '',''"
  by (auto simp: is_space_def Let_def)

lemma strip_pad:
  assumes "\<forall>c \<in> set a. is_space c" and "\<forall>c \<in> set b. is_space c"
  shows "strip (a @ m @ b) = strip m"
proof -
  have 1: "dropWhile is_space (a @ m @ b) = dropWhile is_space (m @ b)"
    using assms(1) by (simp add: dropWhile_append2)
  show ?thesis
  proof (cases "\<forall>c \<in> set m. is_space c")
    case True
    then have e: "dropWhile is_space (m @ b) = []" "dropWhile is_space m = []" using assms(2)
      by (auto simp: dropWhile_eq_Nil_conv)
    show ?thesis by (simp only: strip_def 1 e)
  next
    case False
    then obtain x where "x \<in> set m" "\<not> is_space x" by blast
    then have 2: "dropWhile is_space (m @ b) = dropWhile is_space m @ b"
      by (rule dropWhile_append1)
    have "dropWhile is_space (rev b @ rev (dropWhile is_space m)) = dropWhile is_space (rev (dropWhile is_space m))"
      using assms(2) by (intro dropWhile_append2) simp
    then show ?thesis by (simp only: strip_def 1 2 rev_append)
  qed
qed

lemma strip_decomp:
  obtains a b where "s = a @ strip s @ b" and "\<forall>c \<in> set a. is_space c" and "\<forall>c \<in> set b. is_space c"
proof -
  let ?t = "dropWhile is_space s"
  let ?a = "takeWhile is_space s"
  let ?b = "rev (takeWhile is_space (rev ?t))"
  have "strip s @ ?b = rev (takeWhile is_space (rev ?t) @ dropWhile is_space (rev ?t))"
    by (simp only: strip_def rev_append)
  also have "\<dots> = rev (rev ?t)" by (simp only: takeWhile_dropWhile_id)
  finally have "?t = strip s @ ?b" by simp
  then have "s = ?a @ strip s @ ?b" by (metis takeWhile_dropWhile_id)
  moreover have "\<forall>c \<in> set ?a. is_space c" by (auto dest: set_takeWhileD)
  moreover have "\<forall>c \<in> set ?b. is_space c" by (auto dest: set_takeWhileD)
  ultimately show ?thesis using that by blast
qed

lemma strip_replace_strip: "strip (str_replace_comma (strip s)) = strip (str_replace_comma s)"
proof -
  obtain a b where s: "s = a @ strip s @ b" and a: "\<forall>c \<in> set a. is_space c" and b: "\<forall>c \<in> set b. is_space c"
    by (rule strip_decomp)
  have "str_replace_comma a = a" "str_replace_comma b = b"
    using a b by (auto simp: str_replace_comma_def space_not_comma intro!: filter_True)
  then have "str_replace_comma (a @ strip s @ b) = a @ str_replace_comma (strip s) @ b"
    by (simp add: str_replace_comma_def)
  then have "strip (str_replace_comma (a @ strip s @ b)) = strip (str_replace_comma (strip s))"
    using strip_pad[OF a b] by simp
  with s show ?thesis by simp
qed

section \<open>Calls in the store\<close>

lemma assigned_method_new:
  assumes "frames s a = Some b" and "buffers s b = Some d"
  shows "assigned (frame_method False f a s) =
         Some (Suc (fresh s),
               s\<lparr>frames := (frames s)(Suc (fresh s) \<mapsto> fresh s),
                 buffers := (buffers s)(fresh s \<mapsto> f d),
                 fresh := Suc (Suc (fresh s))\<rparr>)"
  using assms by (simp add: frame_method_def new_frame_def assigned_def)

lemma assigned_copy_deep:
  assumes "frames s a = Some b" and "buffers s b = Some d"
  shows "assigned (copy_call True a s) =
         Some (Suc (fresh s),
               s\<lparr>frames := (frames s)(Suc (fresh s) \<mapsto> fresh s),
                 buffers := (buffers s)(fresh s \<mapsto> d),
                 fresh := Suc (Suc (fresh s))\<rparr>)"
  using assms by (simp add: copy_call_def assigned_method_new)

lemma example_allocated:
  "\<forall>a x. frames example_store a = Some x \<longrightarrow> a < fresh example_store \<and> x < fresh example_store"
  by (simp add: example_store_def)

text \<open>
  That the frame of line 66 stays as it is comes from the calls that the source makes, not
  from the store: a sort in place changes the data that \<^verbatim>\<open>df\<close> shows, and so does a sort in
  place through a shallow copy of \<^verbatim>\<open>df\<close>, which shows the same buffer.
\<close>

lemma sort_changes_example: "sort_values 7 example_df \<noteq> example_df"
  by code_simp

lemma sort_in_place_changes_frame:
  "\<exists>s'. sort_values_call 7 True 1 example_store = Some (None, s') \<and>
        data s' 1 = Some (sort_values 7 example_df) \<and> data s' 1 \<noteq> data example_store 1"
  using sort_changes_example
  by (simp add: sort_values_call_def frame_method_def example_store_def data_def)

lemma shallow_copy_shares_buffer:
  "\<exists>a s1 s2. copy_call False 1 example_store = Some (Some a, s1) \<and> a \<noteq> 1 \<and>
        frames s1 a = frames s1 1 \<and>
        sort_values_call 7 True a s1 = Some (None, s2) \<and>
        data s2 1 = Some (sort_values 7 example_df) \<and> data s2 1 \<noteq> data example_store 1"
  using sort_changes_example
  by (simp add: copy_call_def sort_values_call_def frame_method_def example_store_def data_def)

section \<open>Columns of integers\<close>











section \<open>The routine on the examples\<close>

lemma example_concat: "pd_concat (map DataFrame example_tables) = Inr example_frame"
  by code_simp

lemma example_columns: "set_columns (iloc_columns 10 example_frame) = Inr (iloc_columns 10 example_frame)"
  by code_simp

lemma example_steps: "step3 (step2 (step1 (iloc_columns 10 example_frame))) = Inr example_kept"
  by code_simp

lemma example_line_66: "step6 (\<lambda>col i. None) (step5 (step4 example_kept)) = example_df"
  by code_simp

lemma example_types:
  "to_numeric_dtype (column 7 (step4 example_kept)) = float64"
  "to_numeric_dtype (column 9 (step4 example_kept)) = float64"
  by code_simp+

lemma example_views:
  "reset_index example_df = Cleaned example_sheets"
  "df_debit float64 example_df = Debit example_sheets"
  "df_credit float64 example_df = Credit example_sheets"
  by code_simp+

lemma example_run: "clean_pdf (\<lambda>col i. None) example_tables = Inr example_sheets"
  by (simp add: clean_pdf_def example_concat example_columns example_steps example_line_66
      example_types example_views)

lemma footer_steps:
  "pd_concat (map DataFrame footer_tables) = Inr footer_kept"
  "step3 (step2 (step1 (iloc_columns 10 footer_kept))) = Inr footer_kept"
  by code_simp+

lemma footer_run: "clean_pdf (\<lambda>col i. None) footer_tables = Inr footer_sheets"
  by code_simp







lemma plain_0: "plain ''0''"
  by code_simp

section \<open>Too few columns\<close>

text \<open>
  Claim C2. When the concatenated table has fewer than ten columns, the routine fails: the
  assignment of the ten column names in lines 24 to 35 raises, nothing catches it, and the
  whole call ends with this error (the ValueError that pandas raises for a length mismatch;
  it is what the specification calls SchemaError). When the concatenated table has ten columns
  or more, the call does not end with this error.
\<close>

theorem too_few_columns:
  assumes "pd_concat (map DataFrame tables) = Inr df"
  shows "(ncols df < 10 \<longrightarrow> clean_pdf to_datetime tables = Inl Length_mismatch) \<and>
         (10 \<le> ncols df \<longrightarrow> clean_pdf to_datetime tables \<noteq> Inl Length_mismatch)"
  using assms
  by (auto simp: clean_pdf_def set_columns_def iloc_columns_def step3_def Let_def split: sum.splits if_splits)

theorem too_few_columns_witness:
  "pd_concat (map DataFrame [[[''a'', ''b'', ''c'']]]) = Inr \<lparr>ncols = 3, body = [(0, [Some ''a'', Some ''b'', Some ''c''])]\<rparr> \<and>
   clean_pdf (\<lambda>col i. None) [[[''a'', ''b'', ''c'']]] = Inl Length_mismatch \<and>
   pd_concat (map DataFrame example_tables) = Inr example_frame \<and>
   ncols example_frame = 10 \<and>
   clean_pdf (\<lambda>col i. None) example_tables \<noteq> Inl Length_mismatch"
proof -
  have h: "pd_concat (map DataFrame [[[''a'', ''b'', ''c'']]]) = Inr \<lparr>ncols = 3, body = [(0, [Some ''a'', Some ''b'', Some ''c''])]\<rparr>"
    by code_simp
  have n: "ncols example_frame = 10" by (simp add: example_frame_def)
  from too_few_columns[OF h, of "\<lambda>col i. None"]
  have 1: "clean_pdf (\<lambda>col i. None) [[[''a'', ''b'', ''c'']]] = Inl Length_mismatch" by simp
  from too_few_columns[OF example_concat, of "\<lambda>col i. None"] n
  have 2: "clean_pdf (\<lambda>col i. None) example_tables \<noteq> Inl Length_mismatch" by simp
  show ?thesis using h 1 2 n example_concat by simp
qed

section \<open>Every row is accounted for\<close>

text \<open>
  Claim C6. When the routine returns, the number of rows of the cleaned frame, plus the rows
  with the page marker that step 1 removes, plus the rows without any value and the blank rows
  that step 2 removes, plus the rows that step 3 removes for \<^verbatim>\<open>Additional\<close> in their
  first column, plus the continuation rows that step 4 lists in \<^verbatim>\<open>rows_to_drop\<close>, is the
  number of rows of the concatenated table cut to ten columns.
\<close>

theorem rows_accounted_for:
  assumes "pd_concat (map DataFrame tables) = Inr df0"
      and "step3 (step2 (step1 (iloc_columns 10 df0))) = Inr df3"
      and "clean_pdf to_datetime tables = Inr out"
  shows "length (rows (Cleaned out))
         + length (filter contains_table_from_page (rows (iloc_columns 10 df0)))
         + length (filter (\<lambda>r. list_all (\<lambda>c. c = None) r \<or> all_blank r) (rows (step1 (iloc_columns 10 df0))))
         + length (filter contains_Additional (rows (step2 (step1 (iloc_columns 10 df0)))))
         + length (snd (step4_loop (body df3)))
         = length (rows (iloc_columns 10 df0))"
proof -
  let ?df1 = "iloc_columns 10 df0"
  from assms(3) obtain df0' df3' where o: "pd_concat (map DataFrame tables) = Inr df0'" "10 \<le> ncols df0'"
    "step3 (step2 (step1 (iloc_columns 10 df0'))) = Inr df3'"
    "out = \<lparr>Cleaned = reset_index (step6 to_datetime (step5 (step4 df3'))),
            Debit = df_debit (to_numeric_dtype (column 7 (step4 df3'))) (step6 to_datetime (step5 (step4 df3'))),
            Credit = df_credit (to_numeric_dtype (column 9 (step4 df3'))) (step6 to_datetime (step5 (step4 df3')))\<rparr>"
    by (rule clean_pdf_Inr)
  with assms have e: "df0' = df0" "df3' = df3" by auto
  have d1: "distinct (map fst (body ?df1))" using truncated_shape(2) o(1,2) e by blast
  have d3: "distinct (map fst (body df3))" using body_steps123(2)[OF assms(2) d1] .
  have c: "length (rows (Cleaned out)) = length (body (step4 df3))"
    by (simp add: o(4) e rows_def reset_index_def step6_length step5_length)
  have 4: "length (body (step4 df3)) + length (snd (step4_loop (body df3))) = length (body df3)"
    using d3 by (rule step4_count)
  have 3: "length (body df3) + length (filter contains_Additional (rows (step2 (step1 ?df1)))) = length (body (step2 (step1 ?df1)))"
    using sum_length_filter_compl[of "\<lambda>x. contains_Additional (snd x)" "body (step2 (step1 ?df1))"]
    by (simp add: body_step3[OF assms(2)] rows_def o_def case_prod_unfold)
  have 2: "length (body (step2 (step1 ?df1))) + length (filter (\<lambda>r. list_all (\<lambda>c. c = None) r \<or> all_blank r) (rows (step1 ?df1))) = length (body (step1 ?df1))"
    using sum_length_filter_compl[of "\<lambda>x. list_all (\<lambda>c. c = None) (snd x) \<or> all_blank (snd x)" "body (step1 ?df1)"]
    by (simp add: body_step2 rows_def o_def case_prod_unfold conj_commute)
  have 1: "length (body (step1 ?df1)) + length (filter contains_table_from_page (rows ?df1)) = length (body ?df1)"
    using sum_length_filter_compl[of "\<lambda>x. contains_table_from_page (snd x)" "body ?df1"]
    by (simp add: body_step1 rows_def o_def case_prod_unfold)
  show ?thesis using c 1 2 3 4 by (simp add: rows_def)
qed

theorem rows_accounted_for_witness:
  "pd_concat (map DataFrame example_tables) = Inr example_frame \<and>
   step3 (step2 (step1 (iloc_columns 10 example_frame))) = Inr example_kept \<and>
   clean_pdf (\<lambda>col i. None) example_tables = Inr example_sheets \<and>
   length (rows (Cleaned example_sheets))
     + length (filter contains_table_from_page (rows (iloc_columns 10 example_frame)))
     + length (filter (\<lambda>r. list_all (\<lambda>c. c = None) r \<or> all_blank r) (rows (step1 (iloc_columns 10 example_frame))))
     + length (filter contains_Additional (rows (step2 (step1 (iloc_columns 10 example_frame)))))
     + length (snd (step4_loop (body example_kept)))
     = length (rows (iloc_columns 10 example_frame)) \<and>
   length (rows (Cleaned example_sheets)) = 4 \<and>
   length (rows (iloc_columns 10 example_frame)) = 8"
proof -
  note r = rows_accounted_for[OF example_concat example_steps example_run]
  have "length (rows (Cleaned example_sheets)) = 4" by (simp add: example_sheets_def rows_def)
  moreover have "length (rows (iloc_columns 10 example_frame)) = 8" by code_simp
  ultimately show ?thesis using r example_concat example_steps example_run by blast
qed

section \<open>Two continuation rows in a row\<close>

text \<open>
  Claim C1 asks that the text of every continuation row reaches the nearest row above that is
  kept. Line 53 writes to the row at position \<open>i - 1\<close>, which for the second of two
  continuation rows is the first one, a row that line 55 removes. On a data row followed by
  the continuation rows \<^verbatim>\<open>first\<close> and \<^verbatim>\<open>second\<close>, the row that is kept reads
  \<^verbatim>\<open>Payment first\<close>: the text \<^verbatim>\<open>second\<close> is in no row of the result.
\<close>

theorem second_continuation_row_is_lost:
  "clean_pdf to_datetime
     [[[''1'', ''01/02/2024'', ''100'', ''REF1'', ''Acme'', ''Payment'', ''1'', ''50.00'', '''', ''''],
       ['''', '''', '''', '''', '''', ''first'', '''', '''', '''', ''''],
       ['''', '''', '''', '''', '''', ''second'', '''', '''', '''', '''']]]
   = Inr \<lparr>Cleaned = \<lparr>ncols = 10, body =
            [(0, [Num 1, (case to_datetime [Str ''01/02/2024''] 0 of None \<Rightarrow> NaT | Some d \<Rightarrow> Day d),
                  Num 100, Str ''REF1'', Str ''Acme'', Str ''Payment first'',
                  Num 1, Num 50, NaN, NaN])]\<rparr>,
          Debit = \<lparr>ncols = 8, body =
            [(0, [Num 1, (case to_datetime [Str ''01/02/2024''] 0 of None \<Rightarrow> NaT | Some d \<Rightarrow> Day d),
                  Num 100, Str ''REF1'', Str ''Acme'', Str ''Payment first'',
                  Num 1, Num 50]),
             (1, [Str ''TOTAL'', NaN, NaN, NaN, NaN, NaN, Num 1, Num 50])]\<rparr>,
          Credit = \<lparr>ncols = 8, body =
            [(0, [Str ''TOTAL'', NaN, NaN, NaN, NaN, NaN, Num 0, Num 0])]\<rparr>\<rparr>"
  by code_simp

section \<open>The scenario of three rows\<close>

text \<open>
  Claim C3. On the table of three rows (a data row with Amount_DR \<^verbatim>\<open>50.00\<close>, a row whose
  only text is \<^verbatim>\<open>note continued\<close> under Additional Information, and the marker row
  \<^verbatim>\<open>table from page 2 of 5\<close>), the routine returns a cleaned frame of exactly one row. Its
  Additional Information is \<^verbatim>\<open>Payment note continued\<close>, its Amount_DR is 50, its DR is the
  number 1 and its CR is missing; the marker row is gone. This holds whatever the reading of
  dates is.
\<close>

theorem scenario_three_rows:
  "clean_pdf to_datetime
     [[[''1'', ''01/02/2024'', ''100'', ''REF1'', ''Acme'', ''Payment'', ''1'', ''50.00'', '''', ''''],
       ['''', '''', '''', '''', '''', ''note continued'', '''', '''', '''', ''''],
       [''table from page 2 of 5'', '''', '''', '''', '''', '''', '''', '''', '''', '''']]]
   = Inr \<lparr>Cleaned = \<lparr>ncols = 10, body =
            [(0, [Num 1, (case to_datetime [Str ''01/02/2024''] 0 of None \<Rightarrow> NaT | Some d \<Rightarrow> Day d),
                  Num 100, Str ''REF1'', Str ''Acme'', Str ''Payment note continued'',
                  Num 1, Num 50, NaN, NaN])]\<rparr>,
          Debit = \<lparr>ncols = 8, body =
            [(0, [Num 1, (case to_datetime [Str ''01/02/2024''] 0 of None \<Rightarrow> NaT | Some d \<Rightarrow> Day d),
                  Num 100, Str ''REF1'', Str ''Acme'', Str ''Payment note continued'',
                  Num 1, Num 50]),
             (1, [Str ''TOTAL'', NaN, NaN, NaN, NaN, NaN, Num 1, Num 50])]\<rparr>,
          Credit = \<lparr>ncols = 8, body =
            [(0, [Str ''TOTAL'', NaN, NaN, NaN, NaN, NaN, Num 0, Num 0])]\<rparr>\<rparr>"
  by code_simp

section \<open>Numeric coercion\<close>

text \<open>
  Claim C5. The coercion of line 60 turns the text \<^verbatim>\<open>1,250.50\<close> into the number 1250.5 and
  the text \<^verbatim>\<open>abc\<close> into the missing value. For every cell it gives a number or the missing
  value: it is a total function and has no error to raise. Commas and the white space around
  the text make no difference to the result. Applied to a row of the frame, step 5 coerces
  the cells of No., Tran Type, DR, Amount_DR, CR and Amount_CR and leaves the other four.
\<close>

theorem numeric_coercion:
  "to_numeric (Some ''1,250.50'') = Num 1250.5 \<and>
   to_numeric (Some ''abc'') = NaN \<and>
   numeric (to_numeric c) \<and>
   to_numeric (Some (str_replace_comma s)) = to_numeric (Some s) \<and>
   to_numeric (Some (strip s)) = to_numeric (Some s) \<and>
   rows (step5 \<lparr>ncols = 10, body = [(l, [c0, c1, c2, c3, c4, c5, c6, c7, c8, c9])]\<rparr>) =
     [[to_numeric c0, of_raw c1, to_numeric c2, of_raw c3, of_raw c4, of_raw c5,
       to_numeric c6, to_numeric c7, to_numeric c8, to_numeric c9]]"
proof -
  have 1: "to_numeric (Some ''1,250.50'') = Num 1250.5" by code_simp
  have 2: "to_numeric (Some ''abc'') = NaN" by code_simp
  have 3: "to_numeric (Some (str_replace_comma s)) = to_numeric (Some s)"
    by (simp add: to_numeric_def str_replace_comma_def)
  have 4: "to_numeric (Some (strip s)) = to_numeric (Some s)"
    by (simp add: to_numeric_def strip_replace_strip)
  have 5: "rows (step5 \<lparr>ncols = 10, body = [(l, [c0, c1, c2, c3, c4, c5, c6, c7, c8, c9])]\<rparr>) =
     [[to_numeric c0, of_raw c1, to_numeric c2, of_raw c3, of_raw c4, of_raw c5,
       to_numeric c6, to_numeric c7, to_numeric c8, to_numeric c9]]"
    by (simp add: rows_def step5_def num_cols_def upt_10)
  show ?thesis using 1 2 3 4 5 numeric_to_numeric by blast
qed

theorem numeric_coercion_witness:
  "to_numeric (Some (strip ''  1,250.50 '')) = Num 1250.5 \<and>
   to_numeric (Some (str_replace_comma ''1,250.50'')) = Num 1250.5 \<and>
   numeric (to_numeric (Some ''12 abc'')) \<and>
   to_numeric (Some ''-1.5e2'') = Num (- 150) \<and>
   to_numeric None = NaN"
proof -
  have a: "to_numeric (Some ''  1,250.50 '') = Num 1250.5" by code_simp
  have b: "to_numeric (Some ''-1.5e2'') = Num (- 150)" "to_numeric None = NaN" by code_simp+
  from numeric_coercion[of "Some ''12 abc''" "''1,250.50''"] numeric_coercion[of "Some ''12 abc''" "''  1,250.50 ''"] a b
  show ?thesis by simp
qed

section \<open>The rows of totals\<close>




section \<open>The order of the sheets\<close>

text \<open>
  Claim C7. When the routine returns, the rows of the Debit sheet above the row of totals are
  in ascending order of Amount_DR: every amount is a number or missing, the numbers come
  first and never decrease, and the missing amounts come last. The rows of the Credit sheet
  are in the same order of Amount_CR, the cell 7 of that sheet.
\<close>

theorem sheets_ascending:
  assumes "clean_pdf to_datetime tables = Inr out"
  shows "ascending (map (\<lambda>r. r ! 7) (without_total (Debit out))) \<and>
         list_all numeric (map (\<lambda>r. r ! 7) (without_total (Debit out))) \<and>
         ascending (map (\<lambda>r. r ! 7) (without_total (Credit out))) \<and>
         list_all numeric (map (\<lambda>r. r ! 7) (without_total (Credit out)))"
proof -
  from assms obtain df0 df3 where o: "pd_concat (map DataFrame tables) = Inr df0" "10 \<le> ncols df0"
    "step3 (step2 (step1 (iloc_columns 10 df0))) = Inr df3"
    "out = \<lparr>Cleaned = reset_index (step6 to_datetime (step5 (step4 df3))),
            Debit = df_debit (to_numeric_dtype (column 7 (step4 df3))) (step6 to_datetime (step5 (step4 df3))),
            Credit = df_credit (to_numeric_dtype (column 9 (step4 df3))) (step6 to_datetime (step5 (step4 df3)))\<rparr>"
    by (rule clean_pdf_Inr)
  define df where "df = step6 to_datetime (step5 (step4 df3))"
  have w: "\<forall>r \<in> set (rows df). length r = 10" unfolding df_def using o(1,2,3) by (rule line_66_shape)
  have w4: "\<forall>r \<in> set (rows (step4 df3)). length r = 10"
    using truncated_shape(1)[OF o(1,2)] body_steps123(1)[OF o(3)]
    by (intro step4_rows_length) (auto simp: rows_def)
  have n: "numeric (r ! 7) \<and> numeric (r ! 9)" if "r \<in> set (rows df)" for r
    using line_66_numeric[OF w4] that unfolding df_def by blast
  have out: "Debit out = df_debit (to_numeric_dtype (column 7 (step4 df3))) df"
    "Credit out = df_credit (to_numeric_dtype (column 9 (step4 df3))) df"
    by (simp_all add: o(4) df_def)
  have d: "map (\<lambda>r. r ! 7) (without_total (Debit out)) = map (\<lambda>r. r ! 7) (rows (sort_values 7 (getitem_notna 6 df)))"
    unfolding out without_total_def rows_df_debit[OF w] butlast_rows_sheet by (simp add: o_def)
  have c: "map (\<lambda>r. r ! 7) (without_total (Credit out)) = map (\<lambda>r. r ! 9) (rows (sort_values 9 (getitem_notna 8 df)))"
    unfolding out without_total_def rows_df_credit[OF w] butlast_rows_sheet by (simp add: o_def)
  show ?thesis
    unfolding d c using n by (auto simp: ascending_selected list_all_iff set_rows_selected)
qed

theorem sheets_ascending_witness:
  "clean_pdf (\<lambda>col i. None) example_tables = Inr example_sheets \<and>
   map (\<lambda>r. r ! 7) (without_total (Debit example_sheets)) = [Num (15 / 2), Num (2501 / 2), NaN] \<and>
   ascending (map (\<lambda>r. r ! 7) (without_total (Debit example_sheets))) \<and>
   ascending (map (\<lambda>r. r ! 7) (without_total (Credit example_sheets)))"
proof -
  note t = sheets_ascending[OF example_run]
  have "map (\<lambda>r. r ! 7) (without_total (Debit example_sheets)) = [Num (15 / 2), Num (2501 / 2), NaN]"
    by (simp add: example_sheets_def without_total_def rows_def)
  then show ?thesis using t example_run by blast
qed

section \<open>A sheet without entries\<close>

text \<open>
  Claim C10. When the routine returns and no row of the cleaned frame has a DR, the Debit
  sheet is the single row of totals, with \<^verbatim>\<open>TOTAL\<close> under No., the count 0 under DR and the
  sum 0 under Amount_DR. When no row has a CR, the Credit sheet is the single row of totals
  with the count 0 and the sum 0.
\<close>

theorem sheet_without_entries:
  assumes "clean_pdf to_datetime tables = Inr out"
  shows "(\<not> list_ex (\<lambda>r. notna (r ! 6)) (rows (Cleaned out)) \<longrightarrow>
            body (Debit out) = [(0, [Str ''TOTAL'', NaN, NaN, NaN, NaN, NaN, Num 0, Num 0])]) \<and>
         (\<not> list_ex (\<lambda>r. notna (r ! 8)) (rows (Cleaned out)) \<longrightarrow>
            body (Credit out) = [(0, [Str ''TOTAL'', NaN, NaN, NaN, NaN, NaN, Num 0, Num 0])])"
proof -
  from assms obtain df0 df3 where o:
    "out = \<lparr>Cleaned = reset_index (step6 to_datetime (step5 (step4 df3))),
            Debit = df_debit (to_numeric_dtype (column 7 (step4 df3))) (step6 to_datetime (step5 (step4 df3))),
            Credit = df_credit (to_numeric_dtype (column 9 (step4 df3))) (step6 to_datetime (step5 (step4 df3)))\<rparr>"
    by (rule clean_pdf_Inr)
  define df where "df = step6 to_datetime (step5 (step4 df3))"
  have out: "Cleaned out = reset_index df"
    "Debit out = df_debit (to_numeric_dtype (column 7 (step4 df3))) df"
    "Credit out = df_credit (to_numeric_dtype (column 9 (step4 df3))) df"
    by (simp_all add: o df_def)
  have e: "body (sort_values c2 (getitem_notna c1 df)) = []"
    if "\<not> list_ex (\<lambda>r. notna (r ! c1)) (rows df)" for c1 c2
  proof -
    from that have "filter (\<lambda>(l, r). notna (r ! c1)) (body df) = []"
      by (auto simp: filter_empty_conv list_ex_iff rows_def)
    then show ?thesis by (simp add: body_selected)
  qed
  have "body (df_debit ty df) = [(0, [Str ''TOTAL'', NaN, NaN, NaN, NaN, NaN, Num 0, Num 0])]"
    if "\<not> list_ex (\<lambda>r. notna (r ! 6)) (rows df)" for ty
    using e[OF that, of 7]
    by (simp add: df_debit_def Let_def drop_columns_def concat_total_def total_row_6_7 upt_10
        column_def series_count_def series_sum_Nil)
  moreover have "body (df_credit ty df) = [(0, [Str ''TOTAL'', NaN, NaN, NaN, NaN, NaN, Num 0, Num 0])]"
    if "\<not> list_ex (\<lambda>r. notna (r ! 8)) (rows df)" for ty
    using e[OF that, of 9]
    by (simp add: df_credit_def Let_def drop_columns_def concat_total_def total_row_8_9 upt_10
        column_def series_count_def series_sum_Nil)
  ultimately show ?thesis by (simp add: out rows_reset_index)
qed

theorem sheet_without_entries_witness:
  "clean_pdf (\<lambda>col i. None)
     [[[''2'', ''02/02/2024'', ''100'', ''REF2'', ''Bolt'', ''Refund'', '''', '''', ''1'', ''20.00'']]]
   = Inr \<lparr>Cleaned = \<lparr>ncols = 10, body = [(0, [Num 2, NaT, Num 100, Str ''REF2'', Str ''Bolt'', Str ''Refund'', NaN, NaN, Num 1, Num 20])]\<rparr>,
          Debit = \<lparr>ncols = 8, body = [(0, [Str ''TOTAL'', NaN, NaN, NaN, NaN, NaN, Num 0, Num 0])]\<rparr>,
          Credit = \<lparr>ncols = 8, body = [(0, [Num 2, NaT, Num 100, Str ''REF2'', Str ''Bolt'', Str ''Refund'', Num 1, Num 20]),
                                       (1, [Str ''TOTAL'', NaN, NaN, NaN, NaN, NaN, Num 1, Num 20])]\<rparr>\<rparr> \<and>
   \<not> list_ex (\<lambda>r. notna (r ! 6)) [[Num 2, NaT, Num 100, Str ''REF2'', Str ''Bolt'', Str ''Refund'', NaN, NaN, Num 1, Num 20]] \<and>
   clean_pdf (\<lambda>col i. None)
     [[[''3'', ''03/02/2024'', ''100'', ''REF3'', ''Core'', ''Fee'', ''1'', ''7.50'', '''', '''']]]
   = Inr \<lparr>Cleaned = \<lparr>ncols = 10, body = [(0, [Num 3, NaT, Num 100, Str ''REF3'', Str ''Core'', Str ''Fee'', Num 1, Num 7.5, NaN, NaN])]\<rparr>,
          Debit = \<lparr>ncols = 8, body = [(0, [Num 3, NaT, Num 100, Str ''REF3'', Str ''Core'', Str ''Fee'', Num 1, Num 7.5]),
                                      (1, [Str ''TOTAL'', NaN, NaN, NaN, NaN, NaN, Num 1, Num 7.5])]\<rparr>,
          Credit = \<lparr>ncols = 8, body = [(0, [Str ''TOTAL'', NaN, NaN, NaN, NaN, NaN, Num 0, Num 0])]\<rparr>\<rparr> \<and>
   \<not> list_ex (\<lambda>r. notna (r ! 8)) [[Num 3, NaT, Num 100, Str ''REF3'', Str ''Core'', Str ''Fee'', Num 1, Num 7.5, NaN, NaN]]"
proof -
  define c :: sheets where "c =
     \<lparr>Cleaned = \<lparr>ncols = 10, body = [(0, [Num 2, NaT, Num 100, Str ''REF2'', Str ''Bolt'', Str ''Refund'', NaN, NaN, Num 1, Num 20])]\<rparr>,
      Debit = \<lparr>ncols = 8, body = [(0, [Str ''TOTAL'', NaN, NaN, NaN, NaN, NaN, Num 0, Num 0])]\<rparr>,
      Credit = \<lparr>ncols = 8, body = [(0, [Num 2, NaT, Num 100, Str ''REF2'', Str ''Bolt'', Str ''Refund'', Num 1, Num 20]),
                                   (1, [Str ''TOTAL'', NaN, NaN, NaN, NaN, NaN, Num 1, Num 20])]\<rparr>\<rparr>"
  define d :: sheets where "d =
     \<lparr>Cleaned = \<lparr>ncols = 10, body = [(0, [Num 3, NaT, Num 100, Str ''REF3'', Str ''Core'', Str ''Fee'', Num 1, Num 7.5, NaN, NaN])]\<rparr>,
      Debit = \<lparr>ncols = 8, body = [(0, [Num 3, NaT, Num 100, Str ''REF3'', Str ''Core'', Str ''Fee'', Num 1, Num 7.5]),
                                  (1, [Str ''TOTAL'', NaN, NaN, NaN, NaN, NaN, Num 1, Num 7.5])]\<rparr>,
      Credit = \<lparr>ncols = 8, body = [(0, [Str ''TOTAL'', NaN, NaN, NaN, NaN, NaN, Num 0, Num 0])]\<rparr>\<rparr>"
  have rc: "clean_pdf (\<lambda>col i. None)
     [[[''2'', ''02/02/2024'', ''100'', ''REF2'', ''Bolt'', ''Refund'', '''', '''', ''1'', ''20.00'']]] = Inr c"
    unfolding c_def by code_simp
  have rd: "clean_pdf (\<lambda>col i. None)
     [[[''3'', ''03/02/2024'', ''100'', ''REF3'', ''Core'', ''Fee'', ''1'', ''7.50'', '''', '''']]] = Inr d"
    unfolding d_def by code_simp
  have nc: "\<not> list_ex (\<lambda>r. notna (r ! 6)) (rows (Cleaned c))" by (simp add: c_def rows_def notna_def)
  have nd: "\<not> list_ex (\<lambda>r. notna (r ! 8)) (rows (Cleaned d))" by (simp add: d_def rows_def notna_def)
  have tc: "body (Debit c) = [(0, [Str ''TOTAL'', NaN, NaN, NaN, NaN, NaN, Num 0, Num 0])]"
    using sheet_without_entries[OF rc] nc by blast
  have td: "body (Credit d) = [(0, [Str ''TOTAL'', NaN, NaN, NaN, NaN, NaN, Num 0, Num 0])]"
    using sheet_without_entries[OF rd] nd by blast
  have "rows (Cleaned c) = [[Num 2, NaT, Num 100, Str ''REF2'', Str ''Bolt'', Str ''Refund'', NaN, NaN, Num 1, Num 20]]"
    "rows (Cleaned d) = [[Num 3, NaT, Num 100, Str ''REF3'', Str ''Core'', Str ''Fee'', Num 1, Num 7.5, NaN, NaN]]"
    by (simp_all add: c_def d_def rows_def)
  with nc nd rc rd tc td show ?thesis unfolding c_def d_def by simp
qed

section \<open>The frame is not touched by the derivation of the sheets\<close>

text \<open>
  Claim C9. Let the variable \<^verbatim>\<open>df\<close> refer at line 66 to a frame object over a buffer with
  the data \<open>d\<close>, in a store whose frame objects and their buffers are all allocated. Lines 66
  to 90 run to their end. The frame object still shows the same buffer and the buffer still
  has the data \<open>d\<close>; every frame object and every buffer that the store held before is as it
  was. The variables \<^verbatim>\<open>df\<close>, \<^verbatim>\<open>df_debit\<close> and \<^verbatim>\<open>df_credit\<close> then refer to three new
  frame objects over three new buffers, different from each other and from the buffer of line
  66, and no other frame object of the store shows any of these three buffers. The buffers
  have the data of the Debit sheet, of the Credit sheet, and of the frame of line 66 with its
  rows relabelled, in their order.
\<close>

theorem sheets_are_independent_copies:
  assumes "frames s df = Some b" and "buffers s b = Some d"
    and "\<forall>a x. frames s a = Some x \<longrightarrow> a < fresh s \<and> x < fresh s"
  shows "\<exists>df' debit credit s' b' bd bc.
           lines_66_to_90 ty_dr ty_cr df s = Some ((df', debit, credit), s') \<and>
           frames s' df = Some b \<and> buffers s' b = Some d \<and>
           (\<forall>a. a < fresh s \<longrightarrow> frames s' a = frames s a \<and> buffers s' a = buffers s a) \<and>
           frames s' df' = Some b' \<and> frames s' debit = Some bd \<and> frames s' credit = Some bc \<and>
           distinct [df, df', debit, credit] \<and> distinct [b, b', bd, bc] \<and>
           (\<forall>a. frames s' a = Some bd \<longrightarrow> a = debit) \<and>
           (\<forall>a. frames s' a = Some bc \<longrightarrow> a = credit) \<and>
           (\<forall>a. frames s' a = Some b' \<longrightarrow> a = df') \<and>
           buffers s' bd = Some (df_debit ty_dr d) \<and>
           buffers s' bc = Some (df_credit ty_cr d) \<and>
           buffers s' b' = Some (reset_index d) \<and>
           rows (reset_index d) = rows d"
proof -
  have lt: "df < fresh s" "b < fresh s" using assms(1,3) by blast+
  have r: "rows (reset_index d) = rows d" by (simp add: rows_def reset_index_def)
  have ne_df: "df \<noteq> Suc (fresh s)" "df \<noteq> Suc (Suc (Suc (fresh s)))" "df \<noteq> Suc (Suc (Suc (Suc (Suc (fresh s)))))" "df \<noteq> Suc (Suc (Suc (Suc (Suc (Suc (Suc (fresh s)))))))" "df \<noteq> Suc (Suc (Suc (Suc (Suc (Suc (Suc (Suc (Suc (fresh s)))))))))" "df \<noteq> Suc (Suc (Suc (Suc (Suc (Suc (Suc (Suc (Suc (Suc (Suc (fresh s)))))))))))" "df \<noteq> Suc (Suc (Suc (Suc (Suc (Suc (Suc (Suc (Suc (Suc (Suc (Suc (Suc (fresh s)))))))))))))" "df \<noteq> Suc (Suc (Suc (Suc (Suc (Suc (Suc (Suc (Suc (Suc (Suc (Suc (Suc (Suc (Suc (fresh s)))))))))))))))" "df \<noteq> Suc (Suc (Suc (Suc (Suc (Suc (Suc (Suc (Suc (Suc (Suc (Suc (Suc (Suc (Suc (Suc (Suc (fresh s)))))))))))))))))" "df \<noteq> Suc (Suc (Suc (Suc (Suc (Suc (Suc (Suc (Suc (Suc (Suc (Suc (Suc (Suc (Suc (Suc (Suc (Suc (Suc (fresh s)))))))))))))))))))" "df \<noteq> Suc (Suc (Suc (Suc (Suc (Suc (Suc (Suc (Suc (Suc (Suc (Suc (Suc (Suc (Suc (Suc (Suc (Suc (Suc (Suc (Suc (fresh s)))))))))))))))))))))"
    using lt(1) by simp_all
  have ne_b: "b \<noteq> fresh s" "b \<noteq> Suc (Suc (fresh s))" "b \<noteq> Suc (Suc (Suc (Suc (fresh s))))" "b \<noteq> Suc (Suc (Suc (Suc (Suc (Suc (fresh s))))))" "b \<noteq> Suc (Suc (Suc (Suc (Suc (Suc (Suc (Suc (fresh s))))))))" "b \<noteq> Suc (Suc (Suc (Suc (Suc (Suc (Suc (Suc (Suc (Suc (fresh s))))))))))" "b \<noteq> Suc (Suc (Suc (Suc (Suc (Suc (Suc (Suc (Suc (Suc (Suc (Suc (fresh s))))))))))))" "b \<noteq> Suc (Suc (Suc (Suc (Suc (Suc (Suc (Suc (Suc (Suc (Suc (Suc (Suc (Suc (fresh s))))))))))))))" "b \<noteq> Suc (Suc (Suc (Suc (Suc (Suc (Suc (Suc (Suc (Suc (Suc (Suc (Suc (Suc (Suc (Suc (fresh s))))))))))))))))" "b \<noteq> Suc (Suc (Suc (Suc (Suc (Suc (Suc (Suc (Suc (Suc (Suc (Suc (Suc (Suc (Suc (Suc (Suc (Suc (fresh s))))))))))))))))))" "b \<noteq> Suc (Suc (Suc (Suc (Suc (Suc (Suc (Suc (Suc (Suc (Suc (Suc (Suc (Suc (Suc (Suc (Suc (Suc (Suc (Suc (fresh s))))))))))))))))))))"
    using lt(2) by simp_all
  have old: "frames s a \<noteq> Some (Suc (Suc (Suc (Suc (Suc (Suc (Suc (Suc (fresh s)))))))))" "frames s a \<noteq> Some (Suc (Suc (Suc (Suc (Suc (Suc (Suc (Suc (Suc (Suc (Suc (Suc (Suc (Suc (Suc (Suc (Suc (Suc (fresh s)))))))))))))))))))" "frames s a \<noteq> Some (Suc (Suc (Suc (Suc (Suc (Suc (Suc (Suc (Suc (Suc (Suc (Suc (Suc (Suc (Suc (Suc (Suc (Suc (Suc (Suc (fresh s)))))))))))))))))))))" for a
    using assms(3)[rule_format, of a] by auto
  show ?thesis
    using assms(1,2) ne_df ne_b old r
    apply (simp add: lines_66_to_90_def getitem_notna_call_def sort_values_call_def concat_total_call_def
        drop_columns_call_def reset_index_call_def assigned_method_new assigned_copy_deep
        df_debit_def df_credit_def Let_def)
    done
qed

theorem sheets_are_independent_copies_witness:
  "frames example_store 1 = Some 0 \<and> buffers example_store 0 = Some example_df \<and>
   (\<exists>df' debit credit s' b' bd bc.
      lines_66_to_90 float64 float64 1 example_store = Some ((df', debit, credit), s') \<and>
      frames s' 1 = Some 0 \<and> buffers s' 0 = Some example_df \<and>
      frames s' df' = Some b' \<and> frames s' debit = Some bd \<and> frames s' credit = Some bc \<and>
      distinct [1, df', debit, credit] \<and> distinct [0, b', bd, bc] \<and>
      buffers s' bd = Some (Debit example_sheets) \<and>
      buffers s' bc = Some (Credit example_sheets) \<and>
      buffers s' b' = Some (Cleaned example_sheets))"
proof -
  have h: "frames example_store 1 = Some 0" "buffers example_store 0 = Some example_df"
    by (simp_all add: example_store_def)
  from sheets_are_independent_copies[OF h example_allocated, of float64 float64]
  show ?thesis using h unfolding example_views by blast
qed

section \<open>Cleaning the cleaned frame again\<close>

text \<open>
  Claim C8 says that the cleaned frame, turned back into texts, holds no row that steps 1 to 3
  would remove. This fails twice on the table of three rows. Step 4 joins two texts, and
  \<^verbatim>\<open>see table from\<close> joined with \<^verbatim>\<open>page 3\<close> holds the marker that neither held: step 1
  removes the row. The row that reads \<^verbatim>\<open>End of statement\<close> under No. loses its only text in
  step 5, where the text is not a number: every cell of the cleaned row is missing or empty,
  and step 2 removes the row. This holds however numbers and dates are printed.
\<close>

theorem rerun_removes_two_rows:
  "clean_pdf (\<lambda>col i. None) footer_tables = Inr footer_sheets \<and>
   (\<forall>pn pd.
      raw_table pn pd (Cleaned footer_sheets) =
        [[Some (pn 1), Some [], Some (pn 100), Some ''REF1'', Some ''Acme'', Some ''see table from page 3'',
          Some (pn 1), Some (pn 50), Some [], Some []],
         [Some [], Some [], Some [], Some [], Some [], Some [], Some [], Some [], Some [], Some []]] \<and>
      contains_table_from_page (raw_table pn pd (Cleaned footer_sheets) ! 0) \<and>
      all_blank (raw_table pn pd (Cleaned footer_sheets) ! 1) \<and>
      body (step2 (step1 \<lparr>ncols = 10, body = zip [0..<2] (raw_table pn pd (Cleaned footer_sheets))\<rparr>)) = [])"
proof -
  have m: "str_contains ''table from page'' ''see table from page 3''" by code_simp
  have e: "\<not> str_contains ''table from page'' []" by code_simp
  have b: "all_blank [Some [], Some [], Some [], Some [], Some [], Some [], Some [], Some [], Some [], Some []]"
    by code_simp
  have n: "\<not> list_all (\<lambda>c. c = None) [Some [], Some [], Some [], Some [], Some [], Some [], Some [], Some [], Some [], Some ([] :: string)]"
    by simp
  have "raw_table pn pd (Cleaned footer_sheets) =
        [[Some (pn 1), Some [], Some (pn 100), Some ''REF1'', Some ''Acme'', Some ''see table from page 3'',
          Some (pn 1), Some (pn 50), Some [], Some []],
         [Some [], Some [], Some [], Some [], Some [], Some [], Some [], Some [], Some [], Some []]] \<and>
      contains_table_from_page (raw_table pn pd (Cleaned footer_sheets) ! 0) \<and>
      all_blank (raw_table pn pd (Cleaned footer_sheets) ! 1) \<and>
      body (step2 (step1 \<lparr>ncols = 10, body = zip [0..<2] (raw_table pn pd (Cleaned footer_sheets))\<rparr>)) = []" for pn pd
  proof -
    have t: "raw_table pn pd (Cleaned footer_sheets) =
        [[Some (pn 1), Some [], Some (pn 100), Some ''REF1'', Some ''Acme'', Some ''see table from page 3'',
          Some (pn 1), Some (pn 50), Some [], Some []],
         [Some [], Some [], Some [], Some [], Some [], Some [], Some [], Some [], Some [], Some []]]"
      by (simp add: raw_table_def footer_sheets_def rows_def)
    have c: "contains_table_from_page
        [Some (pn 1), Some [], Some (pn 100), Some ''REF1'', Some ''Acme'', Some ''see table from page 3'',
          Some (pn 1), Some (pn 50), Some [], Some []]"
      using m by (simp add: contains_table_from_page_def)
    have c': "\<not> contains_table_from_page
        [Some [], Some [], Some [], Some [], Some [], Some [], Some [], Some [], Some [], Some []]"
      using e by (simp add: contains_table_from_page_def)
    have z: "zip [0..<2] [x, y] = [(0, x), (1, y)]" for x y :: "raw list"
      by (simp add: upt_rec)
    have "body (step2 (step1 \<lparr>ncols = 10, body = zip [0..<2] (raw_table pn pd (Cleaned footer_sheets))\<rparr>)) = []"
      unfolding t z body_step2 body_step1 using c c' b n by simp
    then show ?thesis using t c b by simp
  qed
  then show ?thesis using footer_run by blast
qed

text \<open>
  Claim C8, amended. Let the routine return, and let the cleaned frame be turned back into
  texts: a text is kept, a missing value is the empty text, and numbers and dates are printed
  as texts that are not blank and hold neither \<^verbatim>\<open>table from page\<close> nor \<^verbatim>\<open>Additional\<close>.
  Every row has ten texts, so \<^verbatim>\<open>dropna\<close> removes none. No row has \<^verbatim>\<open>Additional\<close> in its
  first column: step 5 has left numbers and missing values there. No cell other than
  Additional Information holds \<^verbatim>\<open>table from page\<close>; a row holds it only where step 4 has
  joined, under Additional Information, the texts of a row and of the continuation row below
  it, neither of which held it. A row is blank only where it comes from a row that was not
  blank before step 4 and was not joined: its Tran Ref, Participant and Additional Information
  are missing or blank, none of its six other texts is a number, and its date did not parse.
\<close>

theorem rerun_removed_rows:
  assumes "pd_concat (map DataFrame tables) = Inr df0"
      and "step3 (step2 (step1 (iloc_columns 10 df0))) = Inr df3"
      and "clean_pdf to_datetime tables = Inr out"
      and "\<forall>q. plain (pn q)" and "\<forall>d. plain (pd d)"
  shows "\<forall>r \<in> set (rows (Cleaned out)).
           length r = 10 \<and>
           \<not> list_all (\<lambda>c. c = None) (map (raw_of_cell pn pd) r) \<and>
           \<not> contains_Additional (map (raw_of_cell pn pd) r) \<and>
           (\<forall>k < 10. k \<noteq> 5 \<longrightarrow> \<not> str_contains ''table from page'' (astype_str (raw_of_cell pn pd (r ! k)))) \<and>
           (contains_table_from_page (map (raw_of_cell pn pd) r) \<longrightarrow>
              (\<exists>j. Suc j < length (body df3) \<and> is_continuation (snd (body df3 ! Suc j)) \<and>
                   r ! 5 = Str (astype_str (snd (body df3 ! j) ! 5) @ '' '' @ astype_str (snd (body df3 ! Suc j) ! 5)) \<and>
                   \<not> str_contains ''table from page'' (astype_str (snd (body df3 ! j) ! 5)) \<and>
                   \<not> str_contains ''table from page'' (astype_str (snd (body df3 ! Suc j) ! 5)))) \<and>
           (all_blank (map (raw_of_cell pn pd) r) \<longrightarrow>
              (\<exists>r0 \<in> set (rows df3). \<not> all_blank r0 \<and>
                   r = [NaN, NaT, NaN, of_raw (r0 ! 3), of_raw (r0 ! 4), of_raw (r0 ! 5), NaN, NaN, NaN, NaN] \<and>
                   to_numeric (r0 ! 0) = NaN \<and> to_numeric (r0 ! 2) = NaN \<and> to_numeric (r0 ! 6) = NaN \<and>
                   to_numeric (r0 ! 7) = NaN \<and> to_numeric (r0 ! 8) = NaN \<and> to_numeric (r0 ! 9) = NaN \<and>
                   null_or_blank (of_raw (r0 ! 3)) \<and> null_or_blank (of_raw (r0 ! 4)) \<and>
                   null_or_blank (of_raw (r0 ! 5))))"
proof
  fix r assume rin: "r \<in> set (rows (Cleaned out))"
  let ?raw = "raw_of_cell pn pd"
  from assms(3) obtain df0' df3' where o: "pd_concat (map DataFrame tables) = Inr df0'" "10 \<le> ncols df0'"
    "step3 (step2 (step1 (iloc_columns 10 df0'))) = Inr df3'"
    "out = \<lparr>Cleaned = reset_index (step6 to_datetime (step5 (step4 df3'))),
            Debit = df_debit (to_numeric_dtype (column 7 (step4 df3'))) (step6 to_datetime (step5 (step4 df3'))),
            Credit = df_credit (to_numeric_dtype (column 9 (step4 df3'))) (step6 to_datetime (step5 (step4 df3')))\<rparr>"
    by (rule clean_pdf_Inr)
  with assms have e: "df0' = df0" "df3' = df3" by auto
  note o = o[unfolded e]
  have w3: "\<forall>r \<in> set (rows df3). length r = 10"
    using truncated_shape(1)[OF o(1,2)] body_steps123(1)[OF o(3)] by (auto simp: rows_def)
  have w4: "\<forall>r \<in> set (rows (step4 df3)). length r = 10" using w3 by (rule step4_rows_length)
  have free: "\<not> contains_table_from_page r" "\<not> all_blank r" if "r \<in> set (rows df3)" for r
    using that body_step3[OF o(3)] by (auto simp: rows_def body_step2 body_step1)
  from rin have r: "r \<in> set (rows (step6 to_datetime (step5 (step4 df3))))"
    by (simp add: o(4) rows_reset_index)
  from w4 r obtain r4 x where r4: "r4 \<in> set (rows (step4 df3))" and x: "x = NaT \<or> (\<exists>d. x = Day d)"
    and req: "r = [to_numeric (r4 ! 0), x, to_numeric (r4 ! 2), of_raw (r4 ! 3), of_raw (r4 ! 4), of_raw (r4 ! 5),
              to_numeric (r4 ! 6), to_numeric (r4 ! 7), to_numeric (r4 ! 8), to_numeric (r4 ! 9)]"
    by (rule cleaned_row)
  from r4 obtain j where j: "j < length (body df3)" and r4eq: "r4 = snd (merged (body df3) j)"
    by (rule rows_step4)
  let ?o = "snd (body df3 ! j)"
  let ?n = "snd (body df3 ! Suc j)"
  let ?m = "Suc j < length (body df3) \<and> is_continuation ?n"
  have oj: "?o \<in> set (rows df3)" using j by (auto simp: rows_def)
  have lo: "length ?o = 10" using w3 oj by simp
  have fo: "\<not> str_contains ''table from page'' (astype_str (?o ! k))" if "k < 10" for k
    using no_phrase_cell[OF free(1)[OF oj]] that lo by simp
  have other: "r4 ! k = ?o ! k" if "k \<noteq> 5" for k using that by (simp add: r4eq merged_def)
  have unmerged: "r4 = ?o" if "\<not> ?m" using that by (auto simp: r4eq merged_def)
  have joined: "r4 ! 5 = Some (astype_str (?o ! 5) @ '' '' @ astype_str (?n ! 5))" if "?m"
    using that lo by (simp add: r4eq merged_def)
  have len: "length r = 10" by (simp add: req)
  have 1: "\<not> list_all (\<lambda>c. c = None) (map ?raw r)"
    by (simp add: req raw_of_cell_Some)
  have 2: "\<not> contains_Additional (map ?raw r)"
    using numeric_cell_no_phrase(2)[OF assms(4)] by (simp add: contains_Additional_def req)
  note nn = numeric_cell_no_phrase(1)[OF assms(4), of pd]
  have px: "\<not> str_contains ''table from page'' (astype_str (?raw x))"
    using assms(5) x by (rule date_cell_no_phrase)
  have t34: "\<not> str_contains ''table from page'' (astype_str (?raw (of_raw (r4 ! 3))))"
    "\<not> str_contains ''table from page'' (astype_str (?raw (of_raw (r4 ! 4))))"
    using fo[of 3] fo[of 4] text_cell_phrase[of pn pd "r4 ! 3"] text_cell_phrase[of pn pd "r4 ! 4"]
    by (auto simp: other)
  have 3: "\<forall>k < 10. k \<noteq> 5 \<longrightarrow> \<not> str_contains ''table from page'' (astype_str (?raw (r ! k)))"
  proof (intro allI impI)
    fix k :: nat assume "k < 10" "k \<noteq> 5"
    then have "k \<in> {0, 1, 2, 3, 4, 6, 7, 8, 9}" using below_10[of k] by auto
    then show "\<not> str_contains ''table from page'' (astype_str (?raw (r ! k)))"
      using nn px t34 by (auto simp: req)
  qed
  have 4: "\<exists>j. Suc j < length (body df3) \<and> is_continuation (snd (body df3 ! Suc j)) \<and>
                   r ! 5 = Str (astype_str (snd (body df3 ! j) ! 5) @ '' '' @ astype_str (snd (body df3 ! Suc j) ! 5)) \<and>
                   \<not> str_contains ''table from page'' (astype_str (snd (body df3 ! j) ! 5)) \<and>
                   \<not> str_contains ''table from page'' (astype_str (snd (body df3 ! Suc j) ! 5))"
    if c: "contains_table_from_page (map ?raw r)"
  proof -
    from c have "str_contains ''table from page'' (astype_str (?raw (of_raw (r4 ! 5))))"
      unfolding req contains_table_from_page_def using nn px t34 by simp
    then have k5: "str_contains ''table from page'' (astype_str (r4 ! 5))" by (rule text_cell_phrase)
    have m: ?m
    proof (rule ccontr)
      assume "\<not> ?m"
      then have "r4 ! 5 = ?o ! 5" using unmerged by simp
      with k5 fo[of 5] show False by simp
    qed
    have nj: "?n \<in> set (rows df3)" using m by (auto simp: rows_def)
    have ln: "length ?n = 10" using w3 nj by simp
    have fn: "\<not> str_contains ''table from page'' (astype_str (?n ! 5))"
      using no_phrase_cell[OF free(1)[OF nj]] ln by simp
    have "r ! 5 = Str (astype_str (?o ! 5) @ '' '' @ astype_str (?n ! 5))"
      using joined[OF m] by (simp add: req)
    moreover have "\<not> str_contains ''table from page'' (astype_str (?o ! 5))" using fo[of 5] by simp
    ultimately show ?thesis using m fn by blast
  qed
  have 5: "\<exists>r0 \<in> set (rows df3). \<not> all_blank r0 \<and>
                   r = [NaN, NaT, NaN, of_raw (r0 ! 3), of_raw (r0 ! 4), of_raw (r0 ! 5), NaN, NaN, NaN, NaN] \<and>
                   to_numeric (r0 ! 0) = NaN \<and> to_numeric (r0 ! 2) = NaN \<and> to_numeric (r0 ! 6) = NaN \<and>
                   to_numeric (r0 ! 7) = NaN \<and> to_numeric (r0 ! 8) = NaN \<and> to_numeric (r0 ! 9) = NaN \<and>
                   null_or_blank (of_raw (r0 ! 3)) \<and> null_or_blank (of_raw (r0 ! 4)) \<and>
                   null_or_blank (of_raw (r0 ! 5))"
    if b: "all_blank (map ?raw r)"
  proof -
    from b have nb: "\<forall>c \<in> set r. null_or_blank c"
      by (simp add: all_blank_def list_all_iff blank_raw_of_cell[OF assms(4,5)])
    then have cells: "to_numeric (r4 ! 0) = NaN" "to_numeric (r4 ! 2) = NaN" "to_numeric (r4 ! 6) = NaN"
      "to_numeric (r4 ! 7) = NaN" "to_numeric (r4 ! 8) = NaN" "to_numeric (r4 ! 9) = NaN"
      "null_or_blank x" "null_or_blank (of_raw (r4 ! 3))" "null_or_blank (of_raw (r4 ! 4))"
      "null_or_blank (of_raw (r4 ! 5))"
      by (simp_all add: req null_or_blank_to_numeric)
    have xx: "x = NaT" using x cells(7) by auto
    have nm: "\<not> ?m"
    proof
      assume m: ?m
      have nj: "?n \<in> set (rows df3)" using m by (auto simp: rows_def)
      have ln: "length ?n = 10" using w3 nj by simp
      have "non_empty ?n ! 5" using m by (simp add: is_continuation_def)
      then have "strip (astype_str (?n ! 5)) \<noteq> []" using ln by (simp add: non_empty_def)
      then have "strip (astype_str (?o ! 5) @ '' '' @ astype_str (?n ! 5)) \<noteq> []" by (rule strip_joined)
      then show False using cells(10) joined[OF m] by simp
    qed
    have "r4 = ?o" using unmerged[OF nm] .
    then show ?thesis using oj free(2)[OF oj] cells xx req by auto
  qed
  show "length r = 10 \<and>
           \<not> list_all (\<lambda>c. c = None) (map (raw_of_cell pn pd) r) \<and>
           \<not> contains_Additional (map (raw_of_cell pn pd) r) \<and>
           (\<forall>k < 10. k \<noteq> 5 \<longrightarrow> \<not> str_contains ''table from page'' (astype_str (raw_of_cell pn pd (r ! k)))) \<and>
           (contains_table_from_page (map (raw_of_cell pn pd) r) \<longrightarrow>
              (\<exists>j. Suc j < length (body df3) \<and> is_continuation (snd (body df3 ! Suc j)) \<and>
                   r ! 5 = Str (astype_str (snd (body df3 ! j) ! 5) @ '' '' @ astype_str (snd (body df3 ! Suc j) ! 5)) \<and>
                   \<not> str_contains ''table from page'' (astype_str (snd (body df3 ! j) ! 5)) \<and>
                   \<not> str_contains ''table from page'' (astype_str (snd (body df3 ! Suc j) ! 5)))) \<and>
           (all_blank (map (raw_of_cell pn pd) r) \<longrightarrow>
              (\<exists>r0 \<in> set (rows df3). \<not> all_blank r0 \<and>
                   r = [NaN, NaT, NaN, of_raw (r0 ! 3), of_raw (r0 ! 4), of_raw (r0 ! 5), NaN, NaN, NaN, NaN] \<and>
                   to_numeric (r0 ! 0) = NaN \<and> to_numeric (r0 ! 2) = NaN \<and> to_numeric (r0 ! 6) = NaN \<and>
                   to_numeric (r0 ! 7) = NaN \<and> to_numeric (r0 ! 8) = NaN \<and> to_numeric (r0 ! 9) = NaN \<and>
                   null_or_blank (of_raw (r0 ! 3)) \<and> null_or_blank (of_raw (r0 ! 4)) \<and>
                   null_or_blank (of_raw (r0 ! 5))))"
    using len 1 2 3 4 5 by blast
qed

theorem rerun_removed_rows_witness:
  "pd_concat (map DataFrame footer_tables) = Inr footer_kept \<and>
   step3 (step2 (step1 (iloc_columns 10 footer_kept))) = Inr footer_kept \<and>
   clean_pdf (\<lambda>col i. None) footer_tables = Inr footer_sheets \<and> plain ''0'' \<and>
   rows (Cleaned footer_sheets) =
     [[Num 1, NaT, Num 100, Str ''REF1'', Str ''Acme'', Str ''see table from page 3'', Num 1, Num 50, NaN, NaN],
      [NaN, NaT, NaN, Str '''', Str '''', Str '''', NaN, NaN, NaN, NaN]] \<and>
   contains_table_from_page (map (raw_of_cell (\<lambda>q. ''0'') (\<lambda>d. ''0''))
     [Num 1, NaT, Num 100, Str ''REF1'', Str ''Acme'', Str ''see table from page 3'', Num 1, Num 50, NaN, NaN]) \<and>
   (\<exists>j. Suc j < length (body footer_kept) \<and> is_continuation (snd (body footer_kept ! Suc j)) \<and>
        Str ''see table from page 3'' =
          Str (astype_str (snd (body footer_kept ! j) ! 5) @ '' '' @ astype_str (snd (body footer_kept ! Suc j) ! 5))) \<and>
   all_blank (map (raw_of_cell (\<lambda>q. ''0'') (\<lambda>d. ''0''))
     [NaN, NaT, NaN, Str '''', Str '''', Str '''', NaN, NaN, NaN, NaN]) \<and>
   (\<exists>r0. r0 \<in> set (rows footer_kept) \<and> \<not> all_blank r0 \<and> to_numeric (r0 ! 0) = NaN \<and>
        [NaN, NaT, NaN, Str '''', Str '''', Str '''', NaN, NaN, NaN, NaN] =
        [NaN, NaT, NaN, of_raw (r0 ! 3), of_raw (r0 ! 4), of_raw (r0 ! 5), NaN, NaN, NaN, NaN])"
proof -
  let ?raw = "raw_of_cell (\<lambda>q. ''0'') (\<lambda>d. ''0'')"
  let ?a = "[Num 1, NaT, Num 100, Str ''REF1'', Str ''Acme'', Str ''see table from page 3'', Num 1, Num 50, NaN, NaN]"
  let ?b = "[NaN, NaT, NaN, Str '''', Str '''', Str '''', NaN, NaN, NaN, NaN]"
  have rs: "rows (Cleaned footer_sheets) = [?a, ?b]" by (simp add: footer_sheets_def rows_def)
  have c: "contains_table_from_page (map ?raw ?a)" by code_simp
  have b: "all_blank (map ?raw ?b)" by code_simp
  have p: "\<forall>q. plain ((\<lambda>q. ''0'') q)" "\<forall>d. plain ((\<lambda>d. ''0'') d)" using plain_0 by simp_all
  note t = rerun_removed_rows[OF footer_steps footer_run p]
  have ta: "?a \<in> set (rows (Cleaned footer_sheets))" and tb: "?b \<in> set (rows (Cleaned footer_sheets))"
    unfolding rs by simp_all
  from t[rule_format, OF ta] c
  have 1: "\<exists>j. Suc j < length (body footer_kept) \<and> is_continuation (snd (body footer_kept ! Suc j)) \<and>
        ?a ! 5 = Str (astype_str (snd (body footer_kept ! j) ! 5) @ '' '' @ astype_str (snd (body footer_kept ! Suc j) ! 5))"
    by blast
  from t[rule_format, OF tb] b
  have 2: "\<exists>r0. r0 \<in> set (rows footer_kept) \<and> \<not> all_blank r0 \<and> to_numeric (r0 ! 0) = NaN \<and>
        ?b = [NaN, NaT, NaN, of_raw (r0 ! 3), of_raw (r0 ! 4), of_raw (r0 ! 5), NaN, NaN, NaN, NaN]"
    by blast
  have 5: "?a ! 5 = Str ''see table from page 3''" by simp
  show ?thesis using footer_steps footer_run plain_0 rs c b 1[unfolded 5] 2 by blast
qed

end
